theory Spec2Isabelle
  imports Main "HOL-Library.Sublist"
begin

section \<open>JavaScript values and the object store\<close>

text \<open>
  The modules are TypeScript running on JavaScript values. A value is a primitive or a
  reference to an object of the store; two references are the same object exactly when
  their addresses are equal (the \<open>===\<close> of the source). Numbers are modelled as
  integers, which is all the claims use. The store is a list of objects, the address of
  an object being its index, so that allocation (appending) always yields an address
  that was not in use.
\<close>

datatype jsval = VUndefined | VNull | VBool bool | VNum int | VStr string | VRef nat

datatype objkind = Plain | Array "jsval list" | Function

datatype obj = Obj (kind: objkind) (props: "(string \<times> jsval) list")

type_synonym heap = "obj list"

definition lookup :: "heap \<Rightarrow> nat \<Rightarrow> obj option" where
  "lookup h a = (if a < length h then Some (h ! a) else None)"

definition alloc :: "heap \<Rightarrow> obj \<Rightarrow> heap \<times> jsval" where
  "alloc h ob = (h @ [ob], VRef (length h))"

text \<open>\<open>!!v\<close>: the truthiness of a value.\<close>

fun truthy :: "jsval \<Rightarrow> bool" where
  "truthy VUndefined = False"
| "truthy VNull = False"
| "truthy (VBool b) = b"
| "truthy (VNum n) = (n \<noteq> 0)"
| "truthy (VStr s) = (s \<noteq> [])"
| "truthy (VRef a) = True"

text \<open>\<open>typeof v\<close>. A reference of a running program always designates an allocated
  object; for totality a dangling one is given the type of a plain object.\<close>

fun typeof :: "heap \<Rightarrow> jsval \<Rightarrow> string" where
  "typeof h VUndefined = ''undefined''"
| "typeof h VNull = ''object''"
| "typeof h (VBool b) = ''boolean''"
| "typeof h (VNum n) = ''number''"
| "typeof h (VStr s) = ''string''"
| "typeof h (VRef a) =
     (case lookup h a of
        Some (Obj Function ps) \<Rightarrow> ''function''
      | _ \<Rightarrow> ''object'')"

text \<open>\<open>Array.isArray(v)\<close> and the elements of an array.\<close>

fun isArray :: "heap \<Rightarrow> jsval \<Rightarrow> bool" where
  "isArray h (VRef a) =
     (case lookup h a of Some (Obj (Array es) ps) \<Rightarrow> True | _ \<Rightarrow> False)"
| "isArray h v = False"

fun elements :: "heap \<Rightarrow> jsval \<Rightarrow> jsval list" where
  "elements h (VRef a) =
     (case lookup h a of Some (Obj (Array es) ps) \<Rightarrow> es | _ \<Rightarrow> [])"
| "elements h v = []"

text \<open>\<open>v.p\<close> on an object: the property if the object has it, \<open>undefined\<close> otherwise.
  (The source reads properties only after it has checked that the value is an object.)\<close>

fun getprop :: "heap \<Rightarrow> jsval \<Rightarrow> string \<Rightarrow> jsval" where
  "getprop h (VRef a) p =
     (case lookup h a of
        Some ob \<Rightarrow> (case map_of (props ob) p of Some v \<Rightarrow> v | None \<Rightarrow> VUndefined)
      | None \<Rightarrow> VUndefined)"
| "getprop h v p = VUndefined"

text \<open>\<open>p in v\<close> on an object.\<close>

fun hasprop :: "heap \<Rightarrow> jsval \<Rightarrow> string \<Rightarrow> bool" where
  "hasprop h (VRef a) p =
     (case lookup h a of Some ob \<Rightarrow> map_of (props ob) p \<noteq> None | None \<Rightarrow> False)"
| "hasprop h v p = False"

text \<open>\<open>a[i]\<close> on an array: \<open>undefined\<close> out of range.\<close>

definition index :: "heap \<Rightarrow> jsval \<Rightarrow> nat \<Rightarrow> jsval" where
  "index h v i = (if i < length (elements h v) then elements h v ! i else VUndefined)"

section \<open>DataArray normalization: \<open>arrayify\<close>\<close>

text \<open>
  \<^verbatim>\<open>
  function arrayify(data: any): DataArray {
    let dataArray = [].concat(data === null || data === undefined ? [] : data) as unknown as DataArray;
    dataArray.raw = data;
    return dataArray;
  }
  \<close>
  \<open>[].concat(x)\<close> builds a new array: the elements of \<open>x\<close> when \<open>x\<close> is an array,
  the single element \<open>x\<close> otherwise. The result is a newly allocated array object, on
  which the property \<open>raw\<close> is then set to the argument itself.
\<close>

definition concat_arg :: "heap \<Rightarrow> jsval \<Rightarrow> jsval list" where
  "concat_arg h x = (if isArray h x then elements h x else [x])"

definition arrayify :: "heap \<Rightarrow> jsval \<Rightarrow> heap \<times> jsval" where
  "arrayify h data =
     alloc h (Obj (Array (if data = VNull \<or> data = VUndefined then [] else concat_arg h data))
                  [(''raw'', data)])"

text \<open>The input of the spec's third example: a store holding the array \<open>[1, 2]\<close> at
  address 0.\<close>

definition heap12 :: heap where
  "heap12 = [Obj (Array [VNum 1, VNum 2]) []]"

section \<open>Capability model: \<open>toCats\<close>\<close>

datatype side = Accepting | Offering

text \<open>The errors of the modules, named by the last segment of their URL, and the
  \<open>TypeError\<close> of the language.\<close>

datatype error =
    MatcherNotAnObject
  | MatcherDoesNotHaveAcceptingXorOffering
  | MatcherFormNotAString
  | AlreadyOpened
  | NoConnectPort
  | AlreadyConnected
  | InvalidConnectMessage
  | NoMatchingConnector
  | OfferAlreadyPosted
  | ResultAlreadyPosted
  | TypeError

text \<open>The \<open>having\<close> of a Cat is \<open>matcher.having || {}\<close>: the value given, or an
  empty object made on the spot. The \<open>connect\<close> of a Cat is the intent's own
  \<open>connecting\<close> function, or \<open>performRecv\<close> or \<open>performSend\<close> on the intent.\<close>

datatype having = Having jsval | EmptyObject

datatype connect = Connecting jsval | PerformRecv jsval | PerformSend jsval

record intent =
  side :: side
  form :: string
  having :: having

record cat = intent +
  connect :: connect

record peerIntent = intent +
  origin :: string

text \<open>
  \<^verbatim>\<open>
  for (let form of Array.isArray(formOrForms) ? formOrForms : [formOrForms]) {
    if (typeof form !== 'string') {
      throw new Error('https://purl.org/pio/e/MatcherFormNotAString@$Version$');
    }
    cats.push({ side, form, having: matcher.having || {}, connect });
  }
  \<close>
\<close>

fun pushForms :: "side \<Rightarrow> having \<Rightarrow> connect \<Rightarrow> jsval list \<Rightarrow> cat list \<Rightarrow> error + cat list" where
  "pushForms sd hv cn [] cats = Inr cats"
| "pushForms sd hv cn (VStr f # fs) cats =
     pushForms sd hv cn fs (cats @ [\<lparr>side = sd, form = f, having = hv, connect = cn\<rparr>])"
| "pushForms sd hv cn (v # fs) cats = Inl MatcherFormNotAString"

definition matcherSide :: "heap \<Rightarrow> jsval \<Rightarrow> side" where
  "matcherSide h matcher = (if truthy (getprop h matcher ''accepting'') then Accepting else Offering)"

definition matcherConnect :: "heap \<Rightarrow> jsval \<Rightarrow> connect" where
  "matcherConnect h matcher =
     (if hasprop h matcher ''connecting'' \<and> typeof h (getprop h matcher ''connecting'') = ''function''
      then Connecting matcher
      else if truthy (getprop h matcher ''accepting'') then PerformRecv matcher
      else PerformSend matcher)"

definition matcherHaving :: "heap \<Rightarrow> jsval \<Rightarrow> having" where
  "matcherHaving h matcher =
     (if truthy (getprop h matcher ''having'') then Having (getprop h matcher ''having'')
      else EmptyObject)"

text \<open>\<open>(matcher.accepting || matcher.offering)\<close>, as a list of forms.\<close>

definition matcherForms :: "heap \<Rightarrow> jsval \<Rightarrow> jsval list" where
  "matcherForms h matcher =
     (let formOrForms = (if truthy (getprop h matcher ''accepting'')
                         then getprop h matcher ''accepting''
                         else getprop h matcher ''offering'')
      in if isArray h formOrForms then elements h formOrForms else [formOrForms])"

fun toCatsLoop :: "heap \<Rightarrow> jsval list \<Rightarrow> cat list \<Rightarrow> error + cat list" where
  "toCatsLoop h [] cats = Inr cats"
| "toCatsLoop h (matcher # rest) cats =
     (if \<not> truthy matcher \<or> typeof h matcher \<noteq> ''object'' then Inl MatcherNotAnObject
      else if truthy (getprop h matcher ''accepting'') = truthy (getprop h matcher ''offering'')
      then Inl MatcherDoesNotHaveAcceptingXorOffering
      else (case pushForms (matcherSide h matcher) (matcherHaving h matcher)
                    (matcherConnect h matcher) (matcherForms h matcher) cats of
              Inl e \<Rightarrow> Inl e
            | Inr cats' \<Rightarrow> toCatsLoop h rest cats'))"

definition toCats :: "heap \<Rightarrow> jsval \<Rightarrow> error + cat list" where
  "toCats h matching =
     toCatsLoop h (if isArray h matching then elements h matching else [matching]) []"

subsection \<open>What the spec says of one intent\<close>

text \<open>The intents of the argument, in declaration order.\<close>

definition intents :: "heap \<Rightarrow> jsval \<Rightarrow> jsval list" where
  "intents h matching = (if isArray h matching then elements h matching else [matching])"

definition isString :: "jsval \<Rightarrow> bool" where
  "isString v = (case v of VStr s \<Rightarrow> True | _ \<Rightarrow> False)"

definition stringOf :: "jsval \<Rightarrow> string" where
  "stringOf v = (case v of VStr s \<Rightarrow> s | _ \<Rightarrow> [])"

text \<open>The failure of one intent, if it has one: not an object; else not exactly one of
  \<open>accepting\<close> and \<open>offering\<close> truthy; else a form that is not a string.\<close>

definition intentError :: "heap \<Rightarrow> jsval \<Rightarrow> error option" where
  "intentError h m =
     (if \<not> truthy m \<or> typeof h m \<noteq> ''object'' then Some MatcherNotAnObject
      else if truthy (getprop h m ''accepting'') = truthy (getprop h m ''offering'')
      then Some MatcherDoesNotHaveAcceptingXorOffering
      else if list_all isString (matcherForms h m) then None
      else Some MatcherFormNotAString)"

text \<open>The Cats of one intent: one per form, in the order of the forms.\<close>

definition intentCats :: "heap \<Rightarrow> jsval \<Rightarrow> cat list" where
  "intentCats h m =
     map (\<lambda>f. \<lparr>side = matcherSide h m, form = stringOf f, having = matcherHaving h m,
               connect = matcherConnect h m\<rparr>)
         (matcherForms h m)"

fun firstError :: "heap \<Rightarrow> jsval list \<Rightarrow> error option" where
  "firstError h [] = None"
| "firstError h (m # ms) =
     (case intentError h m of Some e \<Rightarrow> Some e | None \<Rightarrow> firstError h ms)"

text \<open>The intent \<open>{accepting: ""}\<close> at address 0: the property \<open>accepting\<close> is
  present (an empty string, which the declared type \<open>string\<close> allows) and \<open>offering\<close>
  is absent.\<close>

definition heapEmptyForm :: heap where
  "heapEmptyForm = [Obj Plain [(''accepting'', VStr [])]]"

text \<open>Two intents: \<open>{accepting: ["a", "b"]}\<close> at address 1 (its forms at address 0) and
  \<open>{offering: "c", having: h}\<close> at address 3 (\<open>h\<close> at address 2), in the list at
  address 4.\<close>

definition heapIntents :: heap where
  "heapIntents =
     [Obj (Array [VStr ''a'', VStr ''b'']) [],
      Obj Plain [(''accepting'', VRef 0)],
      Obj Plain [],
      Obj Plain [(''offering'', VStr ''c''), (''having'', VRef 2)],
      Obj (Array [VRef 1, VRef 3]) []]"

section \<open>Matcher\<close>

text \<open>
  The service matches its Cats against the options of the peer in \<open>openRequest\<close>:
  \<^verbatim>\<open>
  let peer: PeerIntent | undefined;
  let matchingCat: Cat<unknown> | undefined;
  for (let cat of toCats(matching)) {
    let oppositeSide = cat.side === 'accepting' ? 'offering' : 'accepting';
    for (let peerOption of State.request!.matching) {
      if (peerOption.side === oppositeSide && peerOption.form === cat.form) {
        peer = peerOption;
        matchingCat = cat;
      }
    }
  }
  if (!peer || !matchingCat) { return Promise.resolve({ matched: null }); }
  \<close>
  The two variables of the loops are carried as a pair.
\<close>

definition oppositeSide :: "side \<Rightarrow> side" where
  "oppositeSide sd = (if sd = Accepting then Offering else Accepting)"

fun matchPeers :: "cat \<Rightarrow> peerIntent list \<Rightarrow> peerIntent option \<times> cat option
    \<Rightarrow> peerIntent option \<times> cat option" where
  "matchPeers cat [] found = found"
| "matchPeers cat (peerOption # rest) found =
     matchPeers cat rest
       (if side peerOption = oppositeSide (side cat) \<and> form peerOption = form cat
        then (Some peerOption, Some cat) else found)"

fun matchCats :: "cat list \<Rightarrow> peerIntent list \<Rightarrow> peerIntent option \<times> cat option
    \<Rightarrow> peerIntent option \<times> cat option" where
  "matchCats [] peers found = found"
| "matchCats (cat # rest) peers found = matchCats rest peers (matchPeers cat peers found)"

definition findMatch :: "cat list \<Rightarrow> peerIntent list \<Rightarrow> (cat \<times> peerIntent) option" where
  "findMatch cats peers =
     (case matchCats cats peers (None, None) of
        (Some peer, Some matchingCat) \<Rightarrow> Some (matchingCat, peer)
      | _ \<Rightarrow> None)"

text \<open>
  The requester matches its Cats against the single selection of the peer in
  \<open>onConnect\<close>:
  \<^verbatim>\<open>
  let matchedCat: Cat<any>|undefined;
  for (let cat of cats) {
    if (cat.side === side) { continue; }
    if (cat.form !== form) { continue; }
    matchedCat = cat;
  }
  \<close>
\<close>

fun connectLoop :: "cat list \<Rightarrow> side \<Rightarrow> string \<Rightarrow> cat option \<Rightarrow> cat option" where
  "connectLoop [] sd fm matchedCat = matchedCat"
| "connectLoop (cat # rest) sd fm matchedCat =
     connectLoop rest sd fm
       (if side cat = sd then matchedCat
        else if form cat \<noteq> fm then matchedCat
        else Some cat)"

subsection \<open>What the spec says of the Matcher\<close>

definition eligible :: "cat \<Rightarrow> peerIntent \<Rightarrow> bool" where
  "eligible ownCat peerOption =
     (side peerOption \<noteq> side ownCat \<and> form peerOption = form ownCat)"

text \<open>The nested traversal: own Cats outer, peer options inner, both in declared
  order.\<close>

definition traversal :: "cat list \<Rightarrow> peerIntent list \<Rightarrow> (cat \<times> peerIntent) list" where
  "traversal cats peers = concat (map (\<lambda>c. map (\<lambda>p. (c, p)) peers) cats)"

definition eligiblePairs :: "cat list \<Rightarrow> peerIntent list \<Rightarrow> (cat \<times> peerIntent) list" where
  "eligiblePairs cats peers = filter (\<lambda>(c, p). eligible c p) (traversal cats peers)"

definition lastEligible :: "cat list \<Rightarrow> peerIntent list \<Rightarrow> (cat \<times> peerIntent) option" where
  "lastEligible cats peers =
     (if eligiblePairs cats peers = [] then None else Some (last (eligiblePairs cats peers)))"

text \<open>The tie-break example of the spec: own Cats \<open>X\<close>, \<open>Y\<close> accepting the form
  \<open>f\<close>, and one peer option \<open>P\<close> offering it.\<close>

definition catX :: cat where
  "catX = \<lparr>side = Accepting, form = ''f'', having = EmptyObject, connect = PerformRecv (VRef 0)\<rparr>"

definition catY :: cat where
  "catY = \<lparr>side = Accepting, form = ''f'', having = EmptyObject, connect = PerformRecv (VRef 1)\<rparr>"

definition peerP :: peerIntent where
  "peerP = \<lparr>side = Offering, form = ''f'', having = EmptyObject, origin = ''https://p.example''\<rparr>"

section \<open>Promises and results\<close>

text \<open>A rejection reason or thrown value is an error of the modules or any other
  value; a promise is pending or settled, and settles once: settling a settled promise
  changes nothing.\<close>

datatype reason = Err error | Value jsval

fun truthyReason :: "reason \<Rightarrow> bool" where
  "truthyReason (Err e) = True"
| "truthyReason (Value v) = truthy v"

datatype 'a promise = Pending | Resolved 'a | Rejected reason

definition settle :: "'a promise \<Rightarrow> 'a promise \<Rightarrow> 'a promise" where
  "settle p outcome = (if p = Pending then outcome else p)"

datatype matchResult = NotMatched | Matched peerIntent jsval

section \<open>Service session: \<open>openRequest\<close>\<close>

text \<open>
  The static fields of \<open>State\<close> that \<open>openRequest\<close> uses: \<open>opened\<close>, the peer options
  of the captured \<open>request\<close> (none before a request is captured), whether a
  \<open>connectPort\<close> has been captured, and, for the effects, the \<open>connect\<close> messages
  posted on it and the pairing whose \<open>connect\<close> is in progress.
\<close>

record serviceState =
  opened :: bool
  request :: "peerIntent list option"
  connectPort :: bool
  connectPosted :: "intent list"
  exchanging :: "(cat \<times> peerIntent) option"

text \<open>The loops read \<open>State.request!.matching\<close> once for each Cat: with no request
  captured that is a \<open>TypeError\<close>, unless there is no Cat at all.\<close>

definition requestMatch :: "serviceState \<Rightarrow> cat list \<Rightarrow> error + (cat \<times> peerIntent) option" where
  "requestMatch st cats =
     (if cats = [] then Inr None
      else (case request st of
              None \<Rightarrow> Inl TypeError
            | Some peers \<Rightarrow> Inr (findMatch cats peers)))"

text \<open>
  \<open>openRequest\<close> returns the new state and the promise it returns: rejected, resolved
  with \<open>NotMatched\<close>, or pending on the \<open>connect\<close> of the matched Cat.
\<close>

definition openRequest :: "serviceState \<Rightarrow> heap \<Rightarrow> jsval \<Rightarrow> serviceState \<times> matchResult promise" where
  "openRequest st h matching =
     (if opened st then (st, Rejected (Err AlreadyOpened))
      else let st1 = st\<lparr>opened := True\<rparr> in
        (case toCats h matching of
           Inl e \<Rightarrow> (st1, Rejected (Err e))
         | Inr cats \<Rightarrow>
             (case requestMatch st1 cats of
                Inl e \<Rightarrow> (st1, Rejected (Err e))
              | Inr None \<Rightarrow> (st1, Resolved NotMatched)
              | Inr (Some (matchingCat, peer)) \<Rightarrow>
                  if \<not> connectPort st1 then (st1, Rejected (Err NoConnectPort))
                  else (st1\<lparr>connectPosted := connectPosted st1 @
                               [\<lparr>side = side matchingCat, form = form matchingCat,
                                 having = having matchingCat\<rparr>],
                             exchanging := Some (matchingCat, peer)\<rparr>,
                        Pending))))"

text \<open>A sequence of invocations of \<open>open\<close> on the service, each with its store and its
  argument, and the promises they return.\<close>

fun openCalls :: "serviceState \<Rightarrow> (heap \<times> jsval) list \<Rightarrow> matchResult promise list" where
  "openCalls st [] = []"
| "openCalls st ((h, matching) # rest) =
     snd (openRequest st h matching) # openCalls (fst (openRequest st h matching)) rest"

text \<open>A service that has captured a request with the single option \<open>P\<close>.\<close>

definition serviceP :: serviceState where
  "serviceP = \<lparr>opened = False, request = Some [peerP], connectPort = True,
               connectPosted = [], exchanging = None\<rparr>"

text \<open>The intent \<open>{offering: "f", sending: 1}\<close> at address 0: it offers what \<open>P\<close>
  offers, so it does not match \<open>P\<close>.\<close>

definition heapOffer :: heap where
  "heapOffer = [Obj Plain [(''offering'', VStr ''f''), (''sending'', VNum 1)]]"

section \<open>Requester session\<close>

datatype lifecycle = Created | Open | Complete

text \<open>The proxy iframe, as far as \<open>x\<close> depends on it: whether it has a
  \<open>contentWindow\<close>, and whether \<open>pioc\<close> has been installed on that window (by
  \<open>installInlineEventHandlers\<close>).\<close>

record proxyFrame =
  contentWindow :: bool
  pioc :: bool

text \<open>
  The variables of the closure made by \<open>createZImpl\<close>, with the effects of \<open>x\<close> on
  the outside made visible: whether the request is \<open>ModalRequest.current\<close>, whether the
  popup was closed through \<open>pioc\<close>, whether the proxy has been removed from its parent,
  the ports that were closed, and the ports on which \<open>['done']\<close> was posted. Ports are
  named by numbers. \<open>connecting\<close> holds the Cat and the peer of the \<open>connect\<close> call in
  progress (the variables captured by its continuation).
\<close>

record session =
  state :: lifecycle
  cats :: "cat list option"
  proxy :: "proxyFrame option"
  current :: bool
  popupClosed :: bool
  proxyRemoved :: bool
  closingResolved :: bool
  openPromise :: "matchResult promise"
  closeOverlay :: bool
  overlayClosed :: bool
  unloadEvent :: bool
  exchangePort :: "nat option"
  statusPort :: "nat option"
  connecting :: "(cat \<times> peerIntent) option"
  closedPorts :: "nat list"
  donePosted :: "nat list"

text \<open>
  \<^verbatim>\<open>
  let x = (reason?: any) => {
    if (state === 'complete') { return; }
    state = 'complete';
    if (ModalRequest.current === request) { ModalRequest.current = undefined; }
    if (proxy) {
      if (proxy.contentWindow) { (proxy.contentWindow as any).pioc(); }
      proxy.parentNode?.removeChild(proxy);
    }
    resolveClosing();
    if (reason) { rejectOpen(reason); }
    else if (!exchangePort) { resolveOpen({ matched: null }); }
    if (closeOverlay) { closeOverlay(); }
    if (unloadEvent) { removeEventListener(unloadEvent, onUnload); }
    if (exchangePort) { exchangePort.close(); }
    if (statusPort) { statusPort.postMessage(['done']); statusPort.close(); }
  };
  \<close>
  Calling \<open>pioc\<close> on a window on which it was never installed throws a \<open>TypeError\<close>
  out of \<open>x\<close>, after the state has been set. \<open>x\<close> returns the new session and the
  error thrown, if any. An absent \<open>reason\<close> is \<open>Value VUndefined\<close>.
\<close>

definition closeProxy :: "session \<Rightarrow> error + session" where
  "closeProxy s =
     (case proxy s of
        None \<Rightarrow> Inr s
      | Some p \<Rightarrow>
          if contentWindow p then
            (if pioc p then Inr (s\<lparr>popupClosed := True, proxyRemoved := True\<rparr>)
             else Inl TypeError)
          else Inr (s\<lparr>proxyRemoved := True\<rparr>))"

definition closePort :: "nat option \<Rightarrow> nat list \<Rightarrow> nat list" where
  "closePort port closed = (case port of None \<Rightarrow> closed | Some p \<Rightarrow> closed @ [p])"

definition finishX :: "reason \<Rightarrow> session \<Rightarrow> session" where
  "finishX rsn s =
     (let s1 = s\<lparr>closingResolved := True\<rparr>;
          s2 = (if truthyReason rsn then s1\<lparr>openPromise := settle (openPromise s1) (Rejected rsn)\<rparr>
                else if exchangePort s1 = None
                then s1\<lparr>openPromise := settle (openPromise s1) (Resolved NotMatched)\<rparr>
                else s1);
          s3 = (if closeOverlay s2 then s2\<lparr>overlayClosed := True\<rparr> else s2);
          s4 = s3\<lparr>unloadEvent := False\<rparr>;
          s5 = s4\<lparr>closedPorts := closePort (exchangePort s4) (closedPorts s4)\<rparr>
      in s5\<lparr>donePosted := closePort (statusPort s5) (donePosted s5),
             closedPorts := closePort (statusPort s5) (closedPorts s5)\<rparr>)"

definition x :: "reason \<Rightarrow> session \<Rightarrow> session \<times> error option" where
  "x rsn s =
     (if state s = Complete then (s, None)
      else let s1 = s\<lparr>state := Complete, current := False\<rparr> in
        (case closeProxy s1 of
           Inl e \<Rightarrow> (s1, Some e)
         | Inr s2 \<Rightarrow> (finishX rsn s2, None)))"

text \<open>\<open>ModalRequest.cancel(rejectWith)\<close> is \<open>this.z.x(rejectWith)\<close>.\<close>

definition cancel :: "reason \<Rightarrow> session \<Rightarrow> session \<times> error option" where
  "cancel rejectWith s = x rejectWith s"

text \<open>
  \<open>onConnect(origin, data, ports)\<close>: the checks of the connect message, the match of
  the peer's selection against the own Cats, and the start of the matched Cat's
  \<open>connect\<close>. It throws (\<open>Inl\<close>) or returns the new session.
\<close>

definition onConnect :: "string \<Rightarrow> heap \<Rightarrow> jsval \<Rightarrow> nat list \<Rightarrow> session \<Rightarrow> error + session" where
  "onConnect org h data ports s =
     (if exchangePort s \<noteq> None then Inl AlreadyConnected
      else if \<not> isArray h data \<or> index h data 0 \<noteq> VStr ''connect'' then Inl InvalidConnectMessage
      else if length ports \<noteq> 2 then Inl InvalidConnectMessage
      else if index h data 1 \<noteq> VStr ''accepting'' \<and> index h data 1 \<noteq> VStr ''offering''
      then Inl InvalidConnectMessage
      else if typeof h (index h data 2) \<noteq> ''string'' then Inl InvalidConnectMessage
      else if typeof h (index h data 3) \<noteq> ''object'' then Inl InvalidConnectMessage
      else let sd = (if index h data 1 = VStr ''accepting'' then Accepting else Offering);
               fm = stringOf (index h data 2);
               peer = \<lparr>side = sd, form = fm, having = Having (index h data 3), origin = org\<rparr>
           in (case cats s of
                 None \<Rightarrow> Inl TypeError
               | Some cs \<Rightarrow>
                   (case connectLoop cs sd fm None of
                      None \<Rightarrow> Inl NoMatchingConnector
                    | Some matchedCat \<Rightarrow>
                        Inr (s\<lparr>exchangePort := Some (ports ! 0), statusPort := Some (ports ! 1),
                               connecting := Some (matchedCat, peer)\<rparr>))))"

text \<open>The listener of the \<open>Connect\<close> event:
  \<^verbatim>\<open>try { let { origin, data, ports } = ev.detail; onConnect(origin, data, ports); } catch (e) { x(e); }\<close>\<close>

definition connectEvent :: "string \<Rightarrow> heap \<Rightarrow> jsval \<Rightarrow> nat list \<Rightarrow> session \<Rightarrow> session \<times> error option" where
  "connectEvent org h data ports s =
     (case onConnect org h data ports s of
        Inl e \<Rightarrow> x (Err e) s
      | Inr s' \<Rightarrow> (s', None))"

text \<open>The continuations of the matched Cat's \<open>connect\<close>:
  \<^verbatim>\<open>value => { statusPort!.postMessage(['done']); resolveOpen({ matched: peer, value }) }\<close>
  when it fulfils, and \<open>x\<close> when it rejects.\<close>

definition connectFulfilled :: "jsval \<Rightarrow> session \<Rightarrow> session" where
  "connectFulfilled v s =
     (case connecting s of
        None \<Rightarrow> s
      | Some (matchedCat, peer) \<Rightarrow>
          s\<lparr>donePosted := closePort (statusPort s) (donePosted s),
            openPromise := settle (openPromise s) (Resolved (Matched peer v))\<rparr>)"

definition connectRejected :: "reason \<Rightarrow> session \<Rightarrow> session \<times> error option" where
  "connectRejected rsn s = x rsn s"

text \<open>A requester session as \<open>open\<close> leaves it when the popup has been opened, with the
  given Cats: state \<open>Open\<close>, the proxy in place with \<open>pioc\<close> installed, the result
  pending, no connect yet.\<close>

definition openSession :: "cat list \<Rightarrow> session" where
  "openSession cs =
     \<lparr>state = Open, cats = Some cs, proxy = Some \<lparr>contentWindow = True, pioc = True\<rparr>,
      current = True, popupClosed = False, proxyRemoved = False, closingResolved = False,
      openPromise = Pending, closeOverlay = False, overlayClosed = False, unloadEvent = True,
      exchangePort = None, statusPort = None, connecting = None, closedPorts = [],
      donePosted = []\<rparr>"

text \<open>
  A requester session as \<open>open\<close> leaves it when a listener cancels the \<open>Open\<close> event
  it dispatches on the proxy:
  \<^verbatim>\<open>
  proxyWindow.addEventListener('https://purl.org/pio/a/Connect', (ev: any) => { ... });
  proxyWindow.addEventListener('https://purl.org/pio/a/Close', () => x());
  if (!dispatch(proxy, 'Open', { service: request.service, matching } )) {
    return openPromise;
  }
  \<close>
  The state is \<open>Open\<close>, the Cats are set, the proxy is in place with its
  \<open>contentWindow\<close>, the listener of \<open>Connect\<close> is registered and the result is
  pending, but \<open>open\<close> has returned before \<open>installInlineEventHandlers\<close>, so
  \<open>pioc\<close> is not installed.
\<close>

definition cancelledOpenSession :: "cat list \<Rightarrow> session" where
  "cancelledOpenSession cs =
     \<lparr>state = Open, cats = Some cs, proxy = Some \<lparr>contentWindow = True, pioc = False\<rparr>,
      current = True, popupClosed = False, proxyRemoved = False, closingResolved = False,
      openPromise = Pending, closeOverlay = False, overlayClosed = False, unloadEvent = True,
      exchangePort = None, statusPort = None, connecting = None, closedPorts = [],
      donePosted = []\<rparr>"

text \<open>The connect message \<open>['connect', 'offering', 'f', {}]\<close> at address 1 (its
  \<open>having\<close> at address 0), and the same with the form \<open>g\<close> at address 2.\<close>

definition heapConnect :: heap where
  "heapConnect =
     [Obj Plain [],
      Obj (Array [VStr ''connect'', VStr ''offering'', VStr ''f'', VRef 0]) [],
      Obj (Array [VStr ''connect'', VStr ''offering'', VStr ''g'', VRef 0]) []]"

subsection \<open>Conditions used in the claims about the requester\<close>

text \<open>\<open>pioc\<close> can be called by \<open>x\<close> without throwing: there is no proxy, or it has no
  \<open>contentWindow\<close>, or \<open>pioc\<close> is installed. A connect message is a well-formed
  selection when it passes the checks of \<open>onConnect\<close> on its shape; the peer it
  selects is \<open>selectionPeer\<close>. \<open>exchangedSession\<close> is the session after a connect
  selection matched the Cat \<open>X\<close> and the Cat's \<open>connect\<close> fulfilled with
  \<open>"hello"\<close>.\<close>

definition piocCallable :: "session \<Rightarrow> bool" where
  "piocCallable s = (case proxy s of None \<Rightarrow> True | Some p \<Rightarrow> \<not> contentWindow p \<or> pioc p)"

definition connectSelection :: "heap \<Rightarrow> jsval \<Rightarrow> bool" where
  "connectSelection h data =
     (isArray h data \<and> index h data 0 = VStr ''connect''
      \<and> (index h data 1 = VStr ''accepting'' \<or> index h data 1 = VStr ''offering'')
      \<and> typeof h (index h data 2) = ''string''
      \<and> typeof h (index h data 3) = ''object'')"

definition selectionPeer :: "string \<Rightarrow> heap \<Rightarrow> jsval \<Rightarrow> peerIntent" where
  "selectionPeer org h data =
     \<lparr>side = (if index h data 1 = VStr ''accepting'' then Accepting else Offering),
      form = stringOf (index h data 2), having = Having (index h data 3), origin = org\<rparr>"

definition exchangedSession :: session where
  "exchangedSession =
     connectFulfilled (VStr ''hello'')
       (fst (connectEvent ''https://p.example'' heapConnect (VRef 1) [10, 11] (openSession [catX])))"

section \<open>Exchange sub-protocol: the offering role\<close>

text \<open>
  What can happen at one end of an exchange channel: the owner of the \<open>postOffer\<close>
  capability calls it; a message is delivered to the handler installed on the port,
  with its data and its ports; the closing promise resolves; and, in the accepting role,
  the consumer calls \<open>postResult\<close>, its promise fulfils or rejects, or it throws while
  it is being called.
\<close>

datatype event =
    PostOffer jsval
  | Message jsval "nat list"
  | Closing
  | PostResult jsval
  | CallbackFulfilled jsval
  | CallbackRejected reason
  | ConsumerThrows reason

fun isMessage :: "event \<Rightarrow> bool" where
  "isMessage (Message data ps) = True"
| "isMessage e = False"

text \<open>
  \<^verbatim>\<open>
  let offerPosted = false;
  let postOffer = (data: any, transfer?: Transferable[]) => new Promise<DataArray>((resolve, reject) => {
    port.onmessage = ev => {
      if (waitingForResult) {
        waitingForResult = false;
        resolve(arrayify(ev.data));
        port.postMessage(null);
      }
    };
    if (offerPosted) {
      return reject(new Error('https://purl.org/pio/e/OfferAlreadyPosted@$Version$'));
    }
    offerPosted = true;
    if (transfer) { port.postMessage(data, transfer); } else { port.postMessage(data); }
    let waitingForResult = true;
    closing.then(() => resolve(arrayify(undefined)));
  })
  \<close>
  Each call of \<open>postOffer\<close> makes a promise and a variable \<open>waitingForResult\<close> of
  its own, and installs on the port a handler that reads that variable. The variable is
  declared at the end of the call: in a call that returns at \<open>reject\<close> it is never
  initialised (\<open>None\<close>), and a handler that reads it then throws (or, compiled to
  \<open>var\<close>, reads \<open>undefined\<close>): either way it does nothing. The port has one handler,
  the one of the latest call. \<open>closingHooked\<close> says that the call has registered its
  continuation on the closing promise.
\<close>

record offerCall =
  waitingForResult :: "bool option"
  closingHooked :: bool
  offerResult :: "jsval promise"

record sendState =
  sendHeap :: heap
  offerPosted :: bool
  onmessage :: "nat option"
  offerCalls :: "offerCall list"
  posted :: "jsval list"
  closingFired :: bool

definition sendInit :: "heap \<Rightarrow> sendState" where
  "sendInit h = \<lparr>sendHeap = h, offerPosted = False, onmessage = None, offerCalls = [],
                 posted = [], closingFired = False\<rparr>"

text \<open>A call of \<open>postOffer\<close>. When the closing promise has already resolved, the
  continuation registered on it runs at once.\<close>

definition postOffer :: "jsval \<Rightarrow> sendState \<Rightarrow> sendState" where
  "postOffer data s =
     (let s1 = s\<lparr>onmessage := Some (length (offerCalls s))\<rparr> in
      if offerPosted s1
      then s1\<lparr>offerCalls := offerCalls s1 @
                  [\<lparr>waitingForResult = None, closingHooked = False,
                    offerResult = Rejected (Err OfferAlreadyPosted)\<rparr>]\<rparr>
      else let s2 = s1\<lparr>offerPosted := True, posted := posted s1 @ [data]\<rparr> in
        if closingFired s2
        then s2\<lparr>sendHeap := fst (arrayify (sendHeap s2) VUndefined),
                offerCalls := offerCalls s2 @
                  [\<lparr>waitingForResult = Some True, closingHooked = True,
                    offerResult = Resolved (snd (arrayify (sendHeap s2) VUndefined))\<rparr>]\<rparr>
        else s2\<lparr>offerCalls := offerCalls s2 @
                  [\<lparr>waitingForResult = Some True, closingHooked = True,
                    offerResult = Pending\<rparr>]\<rparr>)"

text \<open>The handler of the port, run on a message: the handler of call \<open>i\<close>.\<close>

definition sendMessage :: "jsval \<Rightarrow> sendState \<Rightarrow> sendState" where
  "sendMessage data s =
     (case onmessage s of
        None \<Rightarrow> s
      | Some i \<Rightarrow>
          if i < length (offerCalls s) \<and> waitingForResult (offerCalls s ! i) = Some True
          then s\<lparr>sendHeap := fst (arrayify (sendHeap s) data),
                  offerCalls := (offerCalls s)
                    [i := (offerCalls s ! i)
                       \<lparr>waitingForResult := Some False,
                        offerResult := settle (offerResult (offerCalls s ! i))
                                         (Resolved (snd (arrayify (sendHeap s) data)))\<rparr>],
                  posted := posted s @ [VNull]\<rparr>
          else s)"

text \<open>The continuations registered on the closing promise, run in order when it
  resolves: \<open>resolve(arrayify(undefined))\<close>.\<close>

fun closeCalls :: "heap \<Rightarrow> offerCall list \<Rightarrow> heap \<times> offerCall list" where
  "closeCalls h [] = (h, [])"
| "closeCalls h (c # cs) =
     (if closingHooked c
      then (fst (closeCalls (fst (arrayify h VUndefined)) cs),
            c\<lparr>offerResult := settle (offerResult c) (Resolved (snd (arrayify h VUndefined)))\<rparr>
              # snd (closeCalls (fst (arrayify h VUndefined)) cs))
      else (fst (closeCalls h cs), c # snd (closeCalls h cs)))"

definition sendClosing :: "sendState \<Rightarrow> sendState" where
  "sendClosing s =
     (if closingFired s then s
      else s\<lparr>closingFired := True,
              sendHeap := fst (closeCalls (sendHeap s) (offerCalls s)),
              offerCalls := snd (closeCalls (sendHeap s) (offerCalls s))\<rparr>)"

fun sendStep :: "event \<Rightarrow> sendState \<Rightarrow> sendState" where
  "sendStep (PostOffer data) s = postOffer data s"
| "sendStep (Message data ps) s = sendMessage data s"
| "sendStep Closing s = sendClosing s"
| "sendStep e s = s"

definition sendRun :: "sendState \<Rightarrow> event list \<Rightarrow> sendState" where
  "sendRun s evs = foldl (\<lambda>s e. sendStep e s) s evs"

text \<open>A DataArray is empty when it is an array without elements whose \<open>raw\<close> is
  \<open>undefined\<close>, as \<open>arrayify(undefined)\<close> makes it.\<close>

definition emptyDataArray :: obj where
  "emptyDataArray = Obj (Array []) [(''raw'', VUndefined)]"

definition isRejected :: "'a promise \<Rightarrow> bool" where
  "isRejected p = (case p of Rejected r \<Rightarrow> True | _ \<Rightarrow> False)"


section \<open>Exchange sub-protocol: the accepting role\<close>

text \<open>
  The variables of \<open>performRecv\<close>, with the state of the promise it returns
  (\<open>recvPromise\<close>), of \<open>postResultPromise\<close>, the messages posted on the port, the
  ports closed, and whether the closing promise has resolved. \<open>thrown\<close> says that the
  consumer threw while it was being called, so that there is no callback promise.
  \<^verbatim>\<open>
  let waitingForOffer = true;
  let waitingForCallback = false;
  let waitingForAck = true;
  let resolveValue: any = arrayify(undefined);
  let ports: (readonly MessagePort[]) | undefined;
  let waitingForResult = true;
  \<close>
\<close>

record recvState =
  recvHeap :: heap
  waitingForOffer :: bool
  waitingForCallback :: bool
  waitingForAck :: bool
  resolveValue :: jsval
  ports :: "nat list option"
  waitingForResultRecv :: bool
  postResultPromise :: "bool promise"
  recvPromise :: "jsval promise"
  offerData :: "jsval option"
  thrown :: bool
  recvPosted :: "jsval list"
  recvClosedPorts :: "nat list"
  recvClosingFired :: bool

definition recvInit :: "heap \<Rightarrow> recvState" where
  "recvInit h =
     \<lparr>recvHeap = fst (arrayify h VUndefined), waitingForOffer = True,
      waitingForCallback = False, waitingForAck = True,
      resolveValue = snd (arrayify h VUndefined), ports = None,
      waitingForResultRecv = True, postResultPromise = Pending, recvPromise = Pending,
      offerData = None, thrown = False, recvPosted = [], recvClosedPorts = [],
      recvClosingFired = False\<rparr>"

definition resolveRecv :: "recvState \<Rightarrow> recvState" where
  "resolveRecv s = s\<lparr>recvPromise := settle (recvPromise s) (Resolved (resolveValue s))\<rparr>"

text \<open>
  \<open>port.onmessage\<close>: the first message is the offer, for which the consumer is called
  (its promise is then pending); a later message, while the acknowledgment is awaited,
  is the acknowledgment.
  \<^verbatim>\<open>
  if (waitingForOffer) {
    waitingForOffer = false;
    ...
    let offer: PeerOffer = { data: arrayify(ev.data), ports: (ports = ev.ports), match: matching, closing };
    waitingForCallback = true;
    ...
  } else if (waitingForAck) {
    resolvePostResult(true);
    waitingForAck = false;
    port.postMessage(null);
    if (!waitingForCallback) { resolve(resolveValue); }
  }
  \<close>
\<close>

definition recvMessage :: "jsval \<Rightarrow> nat list \<Rightarrow> recvState \<Rightarrow> recvState" where
  "recvMessage data ps s =
     (if waitingForOffer s
      then s\<lparr>waitingForOffer := False,
              recvHeap := fst (arrayify (recvHeap s) data),
              offerData := Some (snd (arrayify (recvHeap s) data)),
              ports := Some ps,
              waitingForCallback := True\<rparr>
      else if waitingForAck s
      then let s1 = s\<lparr>postResultPromise := settle (postResultPromise s) (Resolved True),
                       waitingForAck := False,
                       recvPosted := recvPosted s @ [VNull]\<rparr>
           in if \<not> waitingForCallback s1 then resolveRecv s1 else s1
      else s)"

text \<open>
  \<open>postResult(data)\<close>, which exists once the offer has arrived. A second call returns
  a promise rejected with \<open>ResultAlreadyPosted\<close> and changes nothing.
\<close>

definition postResult :: "jsval \<Rightarrow> recvState \<Rightarrow> recvState" where
  "postResult data s =
     (if waitingForOffer s then s
      else if \<not> waitingForResultRecv s then s
      else s\<lparr>waitingForResultRecv := False, recvPosted := recvPosted s @ [data]\<rparr>)"

text \<open>
  The continuations of the consumer's promise:
  \<^verbatim>\<open>
  value => {
    waitingForCallback = false;
    resolveValue = value;
    if (waitingForResult) { postResult(null); }
    else if (!waitingForAck) { resolve(resolveValue); }
  },
  reason => { waitingForCallback = false; reject(reason); }
  \<close>
  and the \<open>catch\<close> of the handler, \<open>reject(e)\<close>, when the consumer throws while it is
  called.
\<close>

definition callbackFulfilled :: "jsval \<Rightarrow> recvState \<Rightarrow> recvState" where
  "callbackFulfilled v s =
     (if waitingForCallback s \<and> \<not> thrown s
      then let s1 = s\<lparr>waitingForCallback := False, resolveValue := v\<rparr>
           in if waitingForResultRecv s1 then postResult VNull s1
              else if \<not> waitingForAck s1 then resolveRecv s1
              else s1
      else s)"

definition callbackRejected :: "reason \<Rightarrow> recvState \<Rightarrow> recvState" where
  "callbackRejected rsn s =
     (if waitingForCallback s \<and> \<not> thrown s
      then s\<lparr>waitingForCallback := False,
              recvPromise := settle (recvPromise s) (Rejected rsn)\<rparr>
      else s)"

definition consumerThrows :: "reason \<Rightarrow> recvState \<Rightarrow> recvState" where
  "consumerThrows rsn s =
     (if waitingForCallback s \<and> \<not> thrown s
      then s\<lparr>thrown := True, recvPromise := settle (recvPromise s) (Rejected rsn)\<rparr>
      else s)"

text \<open>
  The continuation registered on the closing promise:
  \<^verbatim>\<open>
  closing.then(() => {
    resolvePostResult(false);
    waitingForAck = false;
    if (!waitingForCallback) { resolve(resolveValue); }
    if (ports) { for (let port of ports) { port.close(); } }
  });
  \<close>
\<close>

definition recvClosing :: "recvState \<Rightarrow> recvState" where
  "recvClosing s =
     (if recvClosingFired s then s
      else let s1 = s\<lparr>recvClosingFired := True,
                       postResultPromise := settle (postResultPromise s) (Resolved False),
                       waitingForAck := False\<rparr>;
               s2 = (if \<not> waitingForCallback s1 then resolveRecv s1 else s1)
           in s2\<lparr>recvClosedPorts := recvClosedPorts s2 @
                    (case ports s2 of None \<Rightarrow> [] | Some ps \<Rightarrow> ps)\<rparr>)"

fun recvStep :: "event \<Rightarrow> recvState \<Rightarrow> recvState" where
  "recvStep (Message data ps) s = recvMessage data ps s"
| "recvStep Closing s = recvClosing s"
| "recvStep (PostResult data) s = postResult data s"
| "recvStep (CallbackFulfilled v) s = callbackFulfilled v s"
| "recvStep (CallbackRejected rsn) s = callbackRejected rsn s"
| "recvStep (ConsumerThrows rsn) s = consumerThrows rsn s"
| "recvStep (PostOffer data) s = s"

definition recvRun :: "recvState \<Rightarrow> event list \<Rightarrow> recvState" where
  "recvRun s evs = foldl (\<lambda>s e. recvStep e s) s evs"


subsection \<open>Conditions used in the claims about the exchange\<close>

text \<open>The promise of the first call of \<open>postOffer\<close> is resolved with an empty
  DataArray (\<open>resolvedEmpty\<close>); the offer has been posted by the first call, whose
  continuation on the closing promise is registered, and its promise is pending while
  closing has not fired, or resolved with an empty DataArray (\<open>offerPending\<close>).\<close>

definition resolvedEmpty :: "sendState \<Rightarrow> bool" where
  "resolvedEmpty s =
     (offerCalls s \<noteq> []
      \<and> (case offerResult (offerCalls s ! 0) of
            Resolved (VRef a) \<Rightarrow> lookup (sendHeap s) a = Some emptyDataArray
          | _ \<Rightarrow> False))"

definition offerPending :: "sendState \<Rightarrow> bool" where
  "offerPending s =
     (offerPosted s \<and> offerCalls s \<noteq> [] \<and> closingHooked (offerCalls s ! 0)
      \<and> (offerResult (offerCalls s ! 0) = Pending \<and> \<not> closingFired s \<or> resolvedEmpty s))"

section \<open>Facts about the store\<close>

lemma lookup_alloc_old:
  "a < length h \<Longrightarrow> lookup (fst (alloc h ob)) a = lookup h a"
  by (simp add: lookup_def alloc_def nth_append)

lemma lookup_alloc_new:
  "lookup (fst (alloc h ob)) (length h) = Some ob"
  by (simp add: lookup_def alloc_def)

lemma arrayify_result:
  "snd (arrayify h v) = VRef (length h)"
  by (simp add: arrayify_def alloc_def)

lemma arrayify_object:
  "lookup (fst (arrayify h v)) (length h) =
     Some (Obj (Array (if v = VNull \<or> v = VUndefined then [] else concat_arg h v)) [(''raw'', v)])"
  by (simp add: arrayify_def lookup_alloc_new)

lemma arrayify_elements:
  "elements (fst (arrayify h v)) (snd (arrayify h v)) =
     (if v = VNull \<or> v = VUndefined then [] else concat_arg h v)"
  by (simp add: arrayify_result arrayify_object)

lemma arrayify_raw:
  "getprop (fst (arrayify h v)) (snd (arrayify h v)) ''raw'' = v"
  by (simp add: arrayify_result arrayify_object)

lemma arrayify_old:
  "a < length h \<Longrightarrow> lookup (fst (arrayify h v)) a = lookup h a"
  by (simp add: arrayify_def lookup_alloc_old)

lemma arrayify_isArray:
  "isArray (fst (arrayify h v)) (snd (arrayify h v))"
  by (simp add: arrayify_result arrayify_object)

section \<open>Claims about DataArray normalization\<close>

text \<open>
  C4, as the spec states it, says that for the input \<open>[1, 2]\<close> the \<open>raw\<close> field of the
  result is an object distinct from the input array. The source stores the argument
  itself in \<open>raw\<close>: on the store \<open>heap12\<close>, with the input array at address 0, the
  \<open>raw\<close> field of the result is the reference to address 0, the input array.
\<close>

theorem C4_raw_is_input_counterexample:
  "\<not> (getprop (fst (arrayify heap12 (VRef 0))) (snd (arrayify heap12 (VRef 0))) ''raw''
        \<noteq> VRef 0)"
  by (simp add: arrayify_raw)

text \<open>
  C4, amended: \<open>arrayify(null)\<close> is the empty sequence; \<open>arrayify(5)\<close> is the
  one-element sequence \<open>[5]\<close> with \<open>raw\<close> equal to 5; for an input array \<open>[1, 2]\<close>
  at an allocated address \<open>a\<close>, the result is a newly allocated array (an address that
  was free before, so never the identity of the input) with the elements \<open>[1, 2]\<close>,
  and its \<open>raw\<close> field is the input array itself (the same identity), so that
  \<open>raw[0]\<close> is 1.
\<close>

theorem C4_arrayify_examples:
  "elements (fst (arrayify h VNull)) (snd (arrayify h VNull)) = []
   \<and> elements (fst (arrayify h (VNum 5))) (snd (arrayify h (VNum 5))) = [VNum 5]
   \<and> getprop (fst (arrayify h (VNum 5))) (snd (arrayify h (VNum 5))) ''raw'' = VNum 5
   \<and> (lookup h a = Some (Obj (Array [VNum 1, VNum 2]) ps) \<longrightarrow>
        snd (arrayify h (VRef a)) \<noteq> VRef a
        \<and> lookup h (length h) = None
        \<and> snd (arrayify h (VRef a)) = VRef (length h)
        \<and> elements (fst (arrayify h (VRef a))) (snd (arrayify h (VRef a))) = [VNum 1, VNum 2]
        \<and> getprop (fst (arrayify h (VRef a))) (snd (arrayify h (VRef a))) ''raw'' = VRef a
        \<and> index (fst (arrayify h (VRef a)))
             (getprop (fst (arrayify h (VRef a))) (snd (arrayify h (VRef a))) ''raw'') 0 = VNum 1)"
proof -
  have n: "elements (fst (arrayify h VNull)) (snd (arrayify h VNull)) = []"
    by (simp add: arrayify_elements)
  have f: "elements (fst (arrayify h (VNum 5))) (snd (arrayify h (VNum 5))) = [VNum 5]"
    by (simp add: arrayify_elements concat_arg_def)
  have r: "getprop (fst (arrayify h (VNum 5))) (snd (arrayify h (VNum 5))) ''raw'' = VNum 5"
    by (rule arrayify_raw)
  have arr: "snd (arrayify h (VRef a)) \<noteq> VRef a
        \<and> lookup h (length h) = None
        \<and> snd (arrayify h (VRef a)) = VRef (length h)
        \<and> elements (fst (arrayify h (VRef a))) (snd (arrayify h (VRef a))) = [VNum 1, VNum 2]
        \<and> getprop (fst (arrayify h (VRef a))) (snd (arrayify h (VRef a))) ''raw'' = VRef a
        \<and> index (fst (arrayify h (VRef a)))
             (getprop (fst (arrayify h (VRef a))) (snd (arrayify h (VRef a))) ''raw'') 0 = VNum 1"
    if l: "lookup h a = Some (Obj (Array [VNum 1, VNum 2]) ps)"
  proof -
    from l have lt: "a < length h"
      by (simp add: lookup_def split: if_splits)
    have old: "lookup (fst (arrayify h (VRef a))) a = Some (Obj (Array [VNum 1, VNum 2]) ps)"
      using arrayify_old [OF lt] l by simp
    have e: "elements (fst (arrayify h (VRef a))) (snd (arrayify h (VRef a))) = [VNum 1, VNum 2]"
      using l by (simp add: arrayify_elements concat_arg_def)
    have i: "index (fst (arrayify h (VRef a))) (VRef a) 0 = VNum 1"
      using old by (simp add: index_def)
    have ne: "snd (arrayify h (VRef a)) \<noteq> VRef a"
      using lt by (simp add: arrayify_result)
    have free: "lookup h (length h) = None"
      by (simp add: lookup_def)
    have raw: "getprop (fst (arrayify h (VRef a))) (snd (arrayify h (VRef a))) ''raw'' = VRef a"
      by (rule arrayify_raw)
    show ?thesis
      using ne free arrayify_result [of h "VRef a"] e raw i by (simp only: simp_thms)
  qed
  show ?thesis
    using n f r arr by blast
qed

theorem C4_arrayify_examples_witness:
  "lookup heap12 0 = Some (Obj (Array [VNum 1, VNum 2]) [])
   \<and> snd (arrayify heap12 (VRef 0)) \<noteq> VRef 0
   \<and> elements (fst (arrayify heap12 (VRef 0))) (snd (arrayify heap12 (VRef 0))) = [VNum 1, VNum 2]
   \<and> getprop (fst (arrayify heap12 (VRef 0))) (snd (arrayify heap12 (VRef 0))) ''raw'' = VRef 0"
proof -
  have l: "lookup heap12 0 = Some (Obj (Array [VNum 1, VNum 2]) [])"
    by (simp add: heap12_def lookup_def)
  from C4_arrayify_examples [of heap12 0 "[]"] l show ?thesis
    by blast
qed

text \<open>
  C5, as the spec states it, says that normalizing the output of a normalization gives
  a DataArray with the same elements and the same \<open>raw\<close> back-reference. For the input
  5 on the empty store, the first result has \<open>raw = 5\<close>, and normalizing that result
  gives a DataArray whose \<open>raw\<close> is the first result (the object at address 0).
\<close>

theorem C5_raw_not_preserved_counterexample:
  "getprop (fst (arrayify [] (VNum 5))) (snd (arrayify [] (VNum 5))) ''raw'' = VNum 5
   \<and> getprop (fst (arrayify (fst (arrayify [] (VNum 5))) (snd (arrayify [] (VNum 5)))))
        (snd (arrayify (fst (arrayify [] (VNum 5))) (snd (arrayify [] (VNum 5))))) ''raw''
      = VRef 0
   \<and> VRef 0 \<noteq> VNum 5"
proof -
  have d: "snd (arrayify [] (VNum 5)) = VRef 0"
    by (simp add: arrayify_result)
  have r1: "getprop (fst (arrayify [] (VNum 5))) (snd (arrayify [] (VNum 5))) ''raw'' = VNum 5"
    by (rule arrayify_raw)
  have r2: "getprop (fst (arrayify (fst (arrayify [] (VNum 5))) (snd (arrayify [] (VNum 5)))))
        (snd (arrayify (fst (arrayify [] (VNum 5))) (snd (arrayify [] (VNum 5))))) ''raw''
      = snd (arrayify [] (VNum 5))"
    by (rule arrayify_raw)
  show ?thesis
    using r1 r2 unfolding d by simp
qed

text \<open>
  C5, amended: normalization is total (\<open>arrayify\<close> is a total function that returns an
  array for every store and value), and normalizing its own output \<open>d = arrayify(v)\<close>
  gives a newly allocated DataArray, distinct from \<open>d\<close>, with the same sequence of
  elements as \<open>d\<close>, whose \<open>raw\<close> is \<open>d\<close> itself and not the \<open>raw\<close> of \<open>d\<close>.
\<close>

theorem C5_arrayify_twice:
  "isArray (fst (arrayify h v)) (snd (arrayify h v))
   \<and> elements (fst (arrayify (fst (arrayify h v)) (snd (arrayify h v))))
        (snd (arrayify (fst (arrayify h v)) (snd (arrayify h v))))
      = elements (fst (arrayify h v)) (snd (arrayify h v))
   \<and> getprop (fst (arrayify (fst (arrayify h v)) (snd (arrayify h v))))
        (snd (arrayify (fst (arrayify h v)) (snd (arrayify h v)))) ''raw''
      = snd (arrayify h v)
   \<and> snd (arrayify (fst (arrayify h v)) (snd (arrayify h v))) \<noteq> snd (arrayify h v)"
proof -
  define h1 where "h1 = fst (arrayify h v)"
  define d where "d = snd (arrayify h v)"
  have len: "length h1 = Suc (length h)"
    by (simp add: h1_def arrayify_def alloc_def)
  have d: "d = VRef (length h)"
    by (simp add: d_def arrayify_result)
  have arr: "isArray h1 d"
    unfolding h1_def d_def by (rule arrayify_isArray)
  have nn: "d \<noteq> VNull \<and> d \<noteq> VUndefined"
    by (simp add: d)
  have e: "elements (fst (arrayify h1 d)) (snd (arrayify h1 d)) = elements h1 d"
    using arr nn by (simp add: arrayify_elements concat_arg_def)
  have r: "getprop (fst (arrayify h1 d)) (snd (arrayify h1 d)) ''raw'' = d"
    by (rule arrayify_raw)
  have ne: "snd (arrayify h1 d) \<noteq> d"
    by (simp add: arrayify_result len d)
  show ?thesis
    using arr e r ne unfolding h1_def d_def by simp
qed

section \<open>Claims about the capability model\<close>

lemma pushForms_append:
  "pushForms sd hv cn fs acc =
     (if list_all isString fs
      then Inr (acc @ map (\<lambda>f. \<lparr>side = sd, form = stringOf f, having = hv, connect = cn\<rparr>) fs)
      else Inl MatcherFormNotAString)"
  by (induction sd hv cn fs acc rule: pushForms.induct)
     (simp_all add: isString_def stringOf_def)

lemma toCatsLoop_char:
  "toCatsLoop h ms acc =
     (case firstError h ms of
        Some e \<Rightarrow> Inl e
      | None \<Rightarrow> Inr (acc @ concat (map (intentCats h) ms)))"
proof (induction ms arbitrary: acc)
  case Nil
  show ?case by simp
next
  case (Cons m ms)
  show ?case
  proof (cases "intentError h m")
    case None
    then have ok: "truthy m" "typeof h m = ''object''"
      "truthy (getprop h m ''accepting'') \<noteq> truthy (getprop h m ''offering'')"
      "list_all isString (matcherForms h m)"
      by (auto simp: intentError_def split: if_splits)
    have push: "pushForms (matcherSide h m) (matcherHaving h m) (matcherConnect h m)
        (matcherForms h m) acc = Inr (acc @ intentCats h m)"
      using ok(4) by (simp add: pushForms_append intentCats_def)
    show ?thesis
      using None ok(1-3) Cons.IH by (simp add: push split: option.splits)
  next
    case (Some e)
    then show ?thesis
      by (auto simp: intentError_def pushForms_append split: if_splits)
  qed
qed

text \<open>
  C7, as the spec states it, says that \<open>toCats\<close> fails with the side-ambiguity error
  unless exactly one of the properties \<open>accepting\<close> and \<open>offering\<close> is present. The
  intent \<open>{accepting: ""}\<close> has exactly one of them present, and \<open>toCats\<close> fails on it
  with the side-ambiguity error: the source compares the truthiness of the two
  properties, and the empty string is falsy.
\<close>

theorem C7_present_not_truthy_counterexample:
  "hasprop heapEmptyForm (VRef 0) ''accepting''
   \<and> \<not> hasprop heapEmptyForm (VRef 0) ''offering''
   \<and> toCats heapEmptyForm (VRef 0) = Inl MatcherDoesNotHaveAcceptingXorOffering"
  by (simp add: heapEmptyForm_def toCats_def lookup_def)

text \<open>
  C7, amended: \<open>toCats\<close> takes the intents of its argument in declaration order (the
  argument itself when it is not a list). It fails with the error of the first intent
  that has one, an intent's error being \<open>MatcherNotAnObject\<close> if it is not an object,
  else the side-ambiguity error unless exactly one of its properties \<open>accepting\<close> and
  \<open>offering\<close> is truthy, else \<open>MatcherFormNotAString\<close> if one of its forms is not a
  string. If no intent has an error, it returns one Cat per form, \<open>having\<close> defaulted to
  the empty object (when the intent's \<open>having\<close> is falsy), in declaration order with
  the forms of each intent expanded in place.
\<close>

theorem C7_toCats:
  "toCats h matching =
     (case firstError h (intents h matching) of
        Some e \<Rightarrow> Inl e
      | None \<Rightarrow> Inr (concat (map (intentCats h) (intents h matching))))"
  by (simp add: toCats_def intents_def toCatsLoop_char split: option.splits)

theorem C7_toCats_witness:
  "toCats heapIntents (VRef 4) =
     Inr [\<lparr>side = Accepting, form = ''a'', having = EmptyObject, connect = PerformRecv (VRef 1)\<rparr>,
          \<lparr>side = Accepting, form = ''b'', having = EmptyObject, connect = PerformRecv (VRef 1)\<rparr>,
          \<lparr>side = Offering, form = ''c'', having = Having (VRef 2), connect = PerformSend (VRef 3)\<rparr>]
   \<and> toCats heapIntents (VNum 7) = Inl MatcherNotAnObject
   \<and> toCats heapIntents (VRef 2) = Inl MatcherDoesNotHaveAcceptingXorOffering
   \<and> toCats heapIntents (VRef 0) = Inl MatcherNotAnObject"
proof -
  have i4: "intents heapIntents (VRef 4) = [VRef 1, VRef 3]"
    by (simp add: intents_def heapIntents_def lookup_def)
  have i7: "intents heapIntents (VNum 7) = [VNum 7]"
    by (simp add: intents_def)
  have i2: "intents heapIntents (VRef 2) = [VRef 2]"
    by (simp add: intents_def heapIntents_def lookup_def)
  have i0: "intents heapIntents (VRef 0) = [VStr ''a'', VStr ''b'']"
    by (simp add: intents_def heapIntents_def lookup_def)
  have e1: "intentError heapIntents (VRef (Suc 0)) = None"
    by (simp add: intentError_def matcherForms_def isString_def heapIntents_def lookup_def)
  have e3: "intentError heapIntents (VRef 3) = None"
    by (simp add: intentError_def matcherForms_def isString_def heapIntents_def lookup_def)
  have c1: "intentCats heapIntents (VRef (Suc 0)) =
      [\<lparr>side = Accepting, form = ''a'', having = EmptyObject, connect = PerformRecv (VRef (Suc 0))\<rparr>,
       \<lparr>side = Accepting, form = ''b'', having = EmptyObject, connect = PerformRecv (VRef (Suc 0))\<rparr>]"
    by (simp add: intentCats_def matcherForms_def matcherSide_def matcherHaving_def
        matcherConnect_def stringOf_def heapIntents_def lookup_def)
  have c3: "intentCats heapIntents (VRef 3) =
      [\<lparr>side = Offering, form = ''c'', having = Having (VRef 2), connect = PerformSend (VRef 3)\<rparr>]"
    by (simp add: intentCats_def matcherForms_def matcherSide_def matcherHaving_def
        matcherConnect_def stringOf_def heapIntents_def lookup_def)
  have e7: "intentError heapIntents (VNum 7) = Some MatcherNotAnObject"
    by (simp add: intentError_def)
  have e2: "intentError heapIntents (VRef 2) = Some MatcherDoesNotHaveAcceptingXorOffering"
    by (simp add: intentError_def heapIntents_def lookup_def)
  have ea: "intentError heapIntents (VStr ''a'') = Some MatcherNotAnObject"
    by (simp add: intentError_def)
  show ?thesis
    using C7_toCats [of heapIntents "VRef 4"] C7_toCats [of heapIntents "VNum 7"]
      C7_toCats [of heapIntents "VRef 2"] C7_toCats [of heapIntents "VRef 0"]
    by (simp add: i4 i7 i2 i0 e1 e3 c1 c3 e7 e2 ea)
qed


section \<open>Claims about the Matcher\<close>

lemma oppositeSide_iff: "(sd' = oppositeSide sd) = (sd' \<noteq> sd)"
  by (cases sd; cases sd') (simp_all add: oppositeSide_def)

lemma matchPeers_last:
  "matchPeers c ps found =
     (if filter (eligible c) ps = [] then found
      else (Some (last (filter (eligible c) ps)), Some c))"
  by (induction ps arbitrary: found) (simp_all add: eligible_def oppositeSide_iff)

lemma eligiblePairs_Nil: "eligiblePairs [] ps = []"
  by (simp add: eligiblePairs_def traversal_def)

lemma eligiblePairs_Cons:
  "eligiblePairs (c # cs) ps = map (Pair c) (filter (eligible c) ps) @ eligiblePairs cs ps"
  by (simp add: eligiblePairs_def traversal_def filter_map comp_def)

lemma matchCats_last:
  "matchCats cs ps found =
     (if eligiblePairs cs ps = [] then found
      else (Some (snd (last (eligiblePairs cs ps))), Some (fst (last (eligiblePairs cs ps)))))"
proof (induction cs arbitrary: found)
  case Nil
  show ?case by (simp add: eligiblePairs_def traversal_def)
next
  case (Cons c cs)
  show ?case
    by (simp add: Cons.IH matchPeers_last eligiblePairs_Cons last_map)
qed

lemma findMatch_lastEligible: "findMatch cs ps = lastEligible cs ps"
  by (simp add: findMatch_def lastEligible_def matchCats_last)

lemma eligiblePairs_empty:
  "(eligiblePairs cs ps = []) = (\<not> (\<exists>c \<in> set cs. \<exists>p \<in> set ps. eligible c p))"
  by (auto simp: eligiblePairs_def traversal_def filter_empty_conv)

lemma connectLoop_last:
  "connectLoop cs sd fm found =
     (if filter (\<lambda>c. side c \<noteq> sd \<and> form c = fm) cs = [] then found
      else Some (last (filter (\<lambda>c. side c \<noteq> sd \<and> form c = fm) cs)))"
  by (induction cs arbitrary: found) auto

lemma eligiblePairs_single:
  "eligiblePairs cs [p] = map (\<lambda>c. (c, p)) (filter (\<lambda>c. side c \<noteq> side p \<and> form c = form p) cs)"
  by (induction cs) (auto simp: eligiblePairs_Nil eligiblePairs_Cons eligible_def)

lemma connectLoop_findMatch:
  "connectLoop cs (side p) (form p) None = map_option fst (findMatch cs [p])"
  by (simp add: connectLoop_last findMatch_lastEligible lastEligible_def eligiblePairs_single last_map)

text \<open>
  C1: the Matcher returns the eligible pairing that comes last in the nested traversal
  (own Cats outer, peer options inner, both in declared order), a pairing being eligible
  when the sides differ and the forms are equal as strings; it returns none exactly when
  no pairing is eligible; the pairing it returns is an eligible pairing of an own Cat
  with a peer option. The loop of \<open>onConnect\<close> is the same Matcher on the single
  selection of the peer.
\<close>

theorem C1_matcher:
  "findMatch cs ps = lastEligible cs ps
   \<and> (findMatch cs ps = None) = (\<not> (\<exists>c \<in> set cs. \<exists>p \<in> set ps. eligible c p))
   \<and> (\<forall>c p. findMatch cs ps = Some (c, p) \<longrightarrow> c \<in> set cs \<and> p \<in> set ps \<and> eligible c p)
   \<and> connectLoop cs (side q) (form q) None = map_option fst (findMatch cs [q])"
proof -
  have a: "findMatch cs ps = lastEligible cs ps"
    by (rule findMatch_lastEligible)
  have b: "(findMatch cs ps = None) = (\<not> (\<exists>c \<in> set cs. \<exists>p \<in> set ps. eligible c p))"
    by (simp add: a lastEligible_def eligiblePairs_empty)
  have c: "c \<in> set cs \<and> p \<in> set ps \<and> eligible c p" if "findMatch cs ps = Some (c, p)" for c p
  proof -
    from that have ne: "eligiblePairs cs ps \<noteq> []" and l: "last (eligiblePairs cs ps) = (c, p)"
      by (auto simp: a lastEligible_def split: if_splits)
    from ne have "last (eligiblePairs cs ps) \<in> set (eligiblePairs cs ps)"
      by (rule last_in_set)
    with l have "(c, p) \<in> set (eligiblePairs cs ps)"
      by simp
    then show ?thesis
      by (auto simp: eligiblePairs_def traversal_def)
  qed
  have d: "connectLoop cs (side q) (form q) None = map_option fst (findMatch cs [q])"
    by (rule connectLoop_findMatch)
  show ?thesis
    using a b c d by blast
qed

theorem C1_matcher_witness:
  "findMatch [catX, catY] [peerP] = Some (catY, peerP)
   \<and> eligible catY peerP
   \<and> connectLoop [catX, catY] Offering ''f'' None = Some catY
   \<and> findMatch [catX, catY] [] = None"
proof -
  have e: "eligiblePairs [catX, catY] [peerP] = [(catX, peerP), (catY, peerP)]"
    by (simp add: eligiblePairs_def traversal_def eligible_def catX_def catY_def peerP_def)
  have l: "lastEligible [catX, catY] [peerP] = Some (catY, peerP)"
    by (simp add: lastEligible_def e)
  have n: "lastEligible [catX, catY] [] = None"
    by (simp add: lastEligible_def eligiblePairs_def traversal_def)
  have sp: "side peerP = Offering" "form peerP = ''f''"
    by (simp_all add: peerP_def)
  from C1_matcher [of "[catX, catY]" "[peerP]" peerP] C1_matcher [of "[catX, catY]" "[]" peerP]
  show ?thesis
    by (simp add: l n sp)
qed

section \<open>Claims about the service session\<close>

lemma openRequest_opened: "opened (fst (openRequest st h m))"
  by (simp add: openRequest_def Let_def split: sum.splits option.splits prod.splits)

lemma openRequest_again:
  "opened st \<Longrightarrow> openRequest st h m = (st, Rejected (Err AlreadyOpened))"
  by (simp add: openRequest_def)

lemma openCalls_opened:
  "opened st \<Longrightarrow> \<forall>r \<in> set (openCalls st calls). r = Rejected (Err AlreadyOpened)"
  by (induction calls arbitrary: st) (auto simp: openRequest_again)

text \<open>
  C10: \<open>openRequest\<close> sets \<open>opened\<close> before it normalizes the intents and matches, so
  after any first invocation, whatever its outcome (a rejection with a configuration
  error, \<open>NotMatched\<close>, a match), \<open>opened\<close> is set, the next invocation rejects with
  \<open>AlreadyOpened\<close>, and in any sequence of invocations every one after the first
  rejects with \<open>AlreadyOpened\<close>.
\<close>

theorem C10_open_single_shot:
  "opened (fst (openRequest st h m))
   \<and> snd (openRequest (fst (openRequest st h m)) h' m') = Rejected (Err AlreadyOpened)
   \<and> (\<forall>r \<in> set (tl (openCalls st calls)). r = Rejected (Err AlreadyOpened))"
proof -
  have a: "opened (fst (openRequest st h m))"
    by (rule openRequest_opened)
  have b: "snd (openRequest (fst (openRequest st h m)) h' m') = Rejected (Err AlreadyOpened)"
    using openRequest_again [OF a] by simp
  have c: "\<forall>r \<in> set (tl (openCalls st calls)). r = Rejected (Err AlreadyOpened)"
  proof (cases calls)
    case Nil
    then show ?thesis by simp
  next
    case (Cons call rest)
    obtain h0 m0 where call: "call = (h0, m0)"
      by (cases call)
    show ?thesis
      using openCalls_opened [OF openRequest_opened [of st h0 m0], of rest]
      by (simp add: Cons call)
  qed
  show ?thesis
    using a b c by blast
qed

theorem C10_open_single_shot_witness:
  "openCalls serviceP [(heapOffer, VNum 7), (heapOffer, VRef 0)] =
     [Rejected (Err MatcherNotAnObject), Rejected (Err AlreadyOpened)]
   \<and> openCalls serviceP [(heapOffer, VRef 0), (heapOffer, VRef 0)] =
     [Resolved NotMatched, Rejected (Err AlreadyOpened)]"
proof -
  have t7: "toCats heapOffer (VNum 7) = Inl MatcherNotAnObject"
    by (simp add: toCats_def)
  have t0: "toCats heapOffer (VRef 0) =
      Inr [\<lparr>side = Offering, form = ''f'', having = EmptyObject, connect = PerformSend (VRef 0)\<rparr>]"
    by (simp add: toCats_def heapOffer_def lookup_def matcherSide_def matcherHaving_def
        matcherConnect_def matcherForms_def)
  have f7: "snd (openRequest serviceP heapOffer (VNum 7)) = Rejected (Err MatcherNotAnObject)"
    by (simp add: openRequest_def t7 serviceP_def)
  have f0: "snd (openRequest serviceP heapOffer (VRef 0)) = Resolved NotMatched"
    by (simp add: openRequest_def t0 serviceP_def requestMatch_def findMatch_def peerP_def
        oppositeSide_def)
  have s7: "openCalls serviceP [(heapOffer, VNum 7), (heapOffer, VRef 0)] =
      [snd (openRequest serviceP heapOffer (VNum 7)),
       snd (openRequest (fst (openRequest serviceP heapOffer (VNum 7))) heapOffer (VRef 0))]"
    by simp
  have s0: "openCalls serviceP [(heapOffer, VRef 0), (heapOffer, VRef 0)] =
      [snd (openRequest serviceP heapOffer (VRef 0)),
       snd (openRequest (fst (openRequest serviceP heapOffer (VRef 0))) heapOffer (VRef 0))]"
    by simp
  from C10_open_single_shot [of serviceP heapOffer "VNum 7" heapOffer "VRef 0" "[]"]
    C10_open_single_shot [of serviceP heapOffer "VRef 0" heapOffer "VRef 0" "[]"]
  show ?thesis
    unfolding s7 s0 f7 f0 by simp
qed


section \<open>Claims about the requester session\<close>

lemma closeProxy_ok: "piocCallable s \<Longrightarrow> \<exists>s'. closeProxy s = Inr s' \<and> openPromise s' = openPromise s \<and> exchangePort s' = exchangePort s"
  by (auto simp: piocCallable_def closeProxy_def split: option.splits)

lemma finishX_reject:
  "truthyReason r \<Longrightarrow> openPromise (finishX r s) = settle (openPromise s) (Rejected r)"
  by (simp add: finishX_def Let_def)

lemma finishX_settled:
  "openPromise s \<noteq> Pending \<Longrightarrow> openPromise (finishX r s) = openPromise s"
  by (simp add: finishX_def Let_def settle_def)

lemma finishX_state: "state (finishX r s) = state s"
  by (simp add: finishX_def Let_def)

lemma closeProxy_state: "closeProxy s = Inr s' \<Longrightarrow> state s' = state s \<and> openPromise s' = openPromise s \<and> exchangePort s' = exchangePort s"
  by (auto simp: closeProxy_def split: option.splits if_splits)

lemma x_state: "state (fst (x r s)) = Complete"
  by (auto simp: x_def Let_def finishX_state split: sum.splits dest!: closeProxy_state)

lemma x_complete: "state s = Complete \<Longrightarrow> x r s = (s, None)"
  by (simp add: x_def)

lemma x_reject:
  assumes "state s \<noteq> Complete" "truthyReason r" "openPromise s = Pending" "piocCallable s"
  shows "openPromise (fst (x r s)) = Rejected r"
proof -
  let ?s1 = "s\<lparr>state := Complete, current := False\<rparr>"
  have "piocCallable ?s1"
    using assms(4) by (simp add: piocCallable_def)
  from closeProxy_ok [OF this] obtain s2 where s2: "closeProxy ?s1 = Inr s2"
    "openPromise s2 = openPromise ?s1"
    by blast
  show ?thesis
    using assms(1-3) s2 by (simp add: x_def Let_def finishX_reject settle_def)
qed

lemma x_settled:
  "openPromise s \<noteq> Pending \<Longrightarrow> openPromise (fst (x r s)) = openPromise s"
  by (auto simp: x_def Let_def finishX_settled split: sum.splits dest!: closeProxy_state)

text \<open>
  C9, amended: a cancel of a session that is \<open>Complete\<close> is a no-op; a cancel always
  leaves the session \<open>Complete\<close>; if a truthy reject reason is given while the session
  is not \<open>Complete\<close>, the outcome of \<open>open\<close> is still pending, and \<open>x\<close> can call
  \<open>pioc\<close> (the session has no proxy, or the proxy has no \<open>contentWindow\<close>, or
  \<open>pioc\<close> is installed on it), the outcome of \<open>open\<close> is a failure carrying that
  reason, whether or not a connect has started; an outcome that is already settled is
  left as it is. Nothing is said of the outcome of a cancel with a reason on a session
  with a proxy window on which \<open>pioc\<close> was never installed.
\<close>

theorem C9_cancel:
  "(state s = Complete \<longrightarrow> cancel r s = (s, None))
   \<and> state (fst (cancel r s)) = Complete
   \<and> (state s \<noteq> Complete \<and> truthyReason r \<and> openPromise s = Pending \<and> piocCallable s
        \<longrightarrow> openPromise (fst (cancel r s)) = Rejected r)
   \<and> (openPromise s \<noteq> Pending \<longrightarrow> openPromise (fst (cancel r s)) = openPromise s)"
  unfolding cancel_def
  using x_complete [of s r] x_state [of r s] x_reject [of s r] x_settled [of s r]
  by blast


lemma connectSession_f:
  "connectEvent ''https://p.example'' heapConnect (VRef 1) [10, 11] (openSession [catX]) =
     ((openSession [catX])\<lparr>exchangePort := Some 10, statusPort := Some 11,
        connecting := Some (catX, \<lparr>side = Offering, form = ''f'', having = Having (VRef 0),
                                   origin = ''https://p.example''\<rparr>)\<rparr>, None)"
  by (simp add: connectEvent_def onConnect_def heapConnect_def lookup_def index_def
      openSession_def catX_def stringOf_def Let_def)

lemma exchangedSession_eq:
  "exchangedSession =
     (openSession [catX])\<lparr>exchangePort := Some 10, statusPort := Some 11,
        connecting := Some (catX, \<lparr>side = Offering, form = ''f'', having = Having (VRef 0),
                                   origin = ''https://p.example''\<rparr>),
        donePosted := [11],
        openPromise := Resolved (Matched \<lparr>side = Offering, form = ''f'', having = Having (VRef 0),
                                   origin = ''https://p.example''\<rparr> (VStr ''hello''))\<rparr>"
  unfolding exchangedSession_def connectSession_f
  by (simp add: connectFulfilled_def closePort_def settle_def openSession_def)

text \<open>
  C9, as the spec states it, says that a cancel with a reject reason makes the outcome of
  \<open>open\<close> a failure carrying that reason, whatever the state of the exchange. In
  \<open>exchangedSession\<close> the exchange has completed and \<open>open\<close> has resolved with
  \<open>Matched\<close>, the session still being \<open>Open\<close>; a cancel with the reason \<open>"stop"\<close>
  completes the session and leaves the outcome \<open>Matched\<close>.
\<close>

theorem C9_settled_outcome_counterexample:
  "state exchangedSession = Open
   \<and> truthyReason (Value (VStr ''stop''))
   \<and> state (fst (cancel (Value (VStr ''stop'')) exchangedSession)) = Complete
   \<and> openPromise (fst (cancel (Value (VStr ''stop'')) exchangedSession)) =
       Resolved (Matched \<lparr>side = Offering, form = ''f'', having = Having (VRef 0),
                          origin = ''https://p.example''\<rparr> (VStr ''hello''))
   \<and> openPromise (fst (cancel (Value (VStr ''stop'')) exchangedSession)) \<noteq>
       Rejected (Value (VStr ''stop''))"
  by (simp add: exchangedSession_eq cancel_def x_def closeProxy_def finishX_def settle_def
      closePort_def openSession_def Let_def)

theorem C9_cancel_witness:
  "state (openSession [catX]) \<noteq> Complete
   \<and> truthyReason (Value (VStr ''stop''))
   \<and> openPromise (openSession [catX]) = Pending
   \<and> piocCallable (openSession [catX])
   \<and> openPromise (fst (cancel (Value (VStr ''stop'')) (openSession [catX]))) =
       Rejected (Value (VStr ''stop''))
   \<and> state (fst (cancel (Value (VStr ''stop'')) (openSession [catX]))) = Complete
   \<and> cancel (Value VUndefined) (fst (cancel (Value (VStr ''stop'')) (openSession [catX]))) =
       (fst (cancel (Value (VStr ''stop'')) (openSession [catX])), None)
   \<and> openPromise exchangedSession \<noteq> Pending
   \<and> openPromise (fst (cancel (Value (VStr ''stop'')) exchangedSession)) =
       openPromise exchangedSession"
proof -
  have a: "state (openSession [catX]) \<noteq> Complete" "openPromise (openSession [catX]) = Pending"
    "piocCallable (openSession [catX])" "truthyReason (Value (VStr ''stop''))"
    by (simp_all add: openSession_def piocCallable_def)
  have b: "openPromise exchangedSession \<noteq> Pending"
    by (simp add: exchangedSession_eq)
  from C9_cancel [of "openSession [catX]" "Value (VStr ''stop'')"]
    C9_cancel [of "fst (cancel (Value (VStr ''stop'')) (openSession [catX]))" "Value VUndefined"]
    C9_cancel [of exchangedSession "Value (VStr ''stop'')"] a b
  show ?thesis
    by blast
qed


text \<open>
  On a session whose \<open>Open\<close> event was cancelled, a cancel with a reason stops at the
  same call of \<open>pioc\<close>: the session is \<open>Complete\<close>, \<open>x\<close> throws a \<open>TypeError\<close>, and
  \<open>open\<close> stays pending.
\<close>

lemma cancel_without_pioc:
  "cancel (Value (VStr ''stop'')) (cancelledOpenSession [catX]) =
     ((cancelledOpenSession [catX])\<lparr>state := Complete, current := False\<rparr>, Some TypeError)
   \<and> openPromise (fst (cancel (Value (VStr ''stop'')) (cancelledOpenSession [catX]))) = Pending"
  by (simp add: cancel_def x_def closeProxy_def cancelledOpenSession_def)

lemma connectLoop_none:
  "\<forall>c \<in> set cs. \<not> eligible c p \<Longrightarrow> connectLoop cs (side p) (form p) None = None"
  by (auto simp: connectLoop_last eligible_def filter_empty_conv)

lemma onConnect_no_match:
  assumes "exchangePort s = None" "cats s = Some cs" "connectSelection h data" "length pts = 2"
    "\<forall>c \<in> set cs. \<not> eligible c (selectionPeer org h data)"
  shows "onConnect org h data pts s = Inl NoMatchingConnector"
proof -
  let ?p = "selectionPeer org h data"
  have n: "connectLoop cs (side ?p) (form ?p) None = None"
    using assms(5) by (rule connectLoop_none)
  have sp: "side ?p = (if index h data 1 = VStr ''accepting'' then Accepting else Offering)"
    "form ?p = stringOf (index h data 2)"
    by (simp_all add: selectionPeer_def)
  show ?thesis
    using assms(1-4) n unfolding sp
    by (auto simp: onConnect_def connectSelection_def Let_def)
qed

lemma openRequest_no_match:
  assumes "\<not> opened st" "toCats h m = Inr cs" "request st = Some ps"
    "\<not> (\<exists>c \<in> set cs. \<exists>p \<in> set ps. eligible c p)"
  shows "openRequest st h m = (st\<lparr>opened := True\<rparr>, Resolved NotMatched)"
proof -
  have "findMatch cs ps = None"
    using assms(4) by (simp add: findMatch_lastEligible lastEligible_def eligiblePairs_empty)
  then have "requestMatch (st\<lparr>opened := True\<rparr>) cs = Inr None"
    using assms(3) by (simp add: requestMatch_def)
  then show ?thesis
    using assms(1,2) by (simp add: openRequest_def Let_def)
qed

text \<open>
  When \<open>x\<close> can call \<open>pioc\<close>: on the requester, a well-formed connect selection with
  two ports for which no own Cat is eligible, received by a session that is not
  \<open>Complete\<close>, not yet connected and whose \<open>open\<close> is pending, completes the session
  and rejects \<open>open\<close> with \<open>NoMatchingConnector\<close>; on the service, a first \<open>open\<close>
  whose normalized Cats have no eligible pairing with the captured peer options resolves
  with \<open>NotMatched\<close>.
\<close>

lemma no_match_outcomes:
  "(state s \<noteq> Complete \<and> openPromise s = Pending \<and> piocCallable s
      \<and> exchangePort s = None \<and> cats s = Some cs
      \<and> connectSelection h data \<and> length pts = 2
      \<and> (\<forall>c \<in> set cs. \<not> eligible c (selectionPeer org h data))
    \<longrightarrow> state (fst (connectEvent org h data pts s)) = Complete
        \<and> openPromise (fst (connectEvent org h data pts s)) = Rejected (Err NoMatchingConnector))
   \<and> (\<not> opened st \<and> toCats h' m = Inr cs' \<and> request st = Some ps
      \<and> \<not> (\<exists>c \<in> set cs'. \<exists>p \<in> set ps. eligible c p)
    \<longrightarrow> snd (openRequest st h' m) = Resolved NotMatched)"
proof -
  have req: "state (fst (connectEvent org h data pts s)) = Complete
        \<and> openPromise (fst (connectEvent org h data pts s)) = Rejected (Err NoMatchingConnector)"
    if a: "state s \<noteq> Complete" "openPromise s = Pending" "piocCallable s"
      "exchangePort s = None" "cats s = Some cs" "connectSelection h data" "length pts = 2"
      "\<forall>c \<in> set cs. \<not> eligible c (selectionPeer org h data)"
  proof -
    have ev: "connectEvent org h data pts s = x (Err NoMatchingConnector) s"
      using onConnect_no_match [OF a(4-8)] by (simp add: connectEvent_def)
    show ?thesis
      unfolding ev using x_state [of "Err NoMatchingConnector" s]
        x_reject [OF a(1) _ a(2) a(3), of "Err NoMatchingConnector"]
      by simp
  qed
  have srv: "snd (openRequest st h' m) = Resolved NotMatched"
    if b: "\<not> opened st" "toCats h' m = Inr cs'" "request st = Some ps"
      "\<not> (\<exists>c \<in> set cs'. \<exists>p \<in> set ps. eligible c p)"
    using openRequest_no_match [OF b] by simp
  show ?thesis
    using req srv by blast
qed

lemma toCats_heapOffer:
  "toCats heapOffer (VRef 0) =
      Inr [\<lparr>side = Offering, form = ''f'', having = EmptyObject, connect = PerformSend (VRef 0)\<rparr>]"
  by (simp add: toCats_def heapOffer_def lookup_def matcherSide_def matcherHaving_def
      matcherConnect_def matcherForms_def)

lemma no_match_outcomes_example:
  "connectSelection heapConnect (VRef 2)
   \<and> \<not> eligible catX (selectionPeer ''https://p.example'' heapConnect (VRef 2))
   \<and> state (fst (connectEvent ''https://p.example'' heapConnect (VRef 2) [10, 11]
         (openSession [catX]))) = Complete
   \<and> openPromise (fst (connectEvent ''https://p.example'' heapConnect (VRef 2) [10, 11]
         (openSession [catX]))) = Rejected (Err NoMatchingConnector)
   \<and> \<not> opened serviceP
   \<and> snd (openRequest serviceP heapOffer (VRef 0)) = Resolved NotMatched"
proof -
  have a: "state (openSession [catX]) \<noteq> Complete" "openPromise (openSession [catX]) = Pending"
    "piocCallable (openSession [catX])" "exchangePort (openSession [catX]) = None"
    "cats (openSession [catX]) = Some [catX]" "length [10, 11 :: nat] = 2"
    by (simp_all add: openSession_def piocCallable_def)
  have sel: "connectSelection heapConnect (VRef 2)"
    by (simp add: connectSelection_def heapConnect_def lookup_def index_def)
  have ne: "\<forall>c \<in> set [catX]. \<not> eligible c (selectionPeer ''https://p.example'' heapConnect (VRef 2))"
    by (simp add: eligible_def selectionPeer_def catX_def heapConnect_def lookup_def index_def
        stringOf_def)
  have ne1: "\<not> eligible catX (selectionPeer ''https://p.example'' heapConnect (VRef 2))"
    using ne by simp
  have b: "\<not> opened serviceP" "request serviceP = Some [peerP]"
    by (simp_all add: serviceP_def)
  have nb: "\<not> (\<exists>c \<in> set [\<lparr>side = Offering, form = ''f'', having = EmptyObject,
        connect = PerformSend (VRef 0)\<rparr>]. \<exists>p \<in> set [peerP]. eligible c p)"
    by (simp add: eligible_def peerP_def)
  from no_match_outcomes [of "openSession [catX]" "[catX]" heapConnect "VRef 2" "[10, 11]"
      "''https://p.example''" serviceP heapOffer "VRef 0" _ "[peerP]"]
    a sel ne ne1 b nb toCats_heapOffer
  show ?thesis
    by blast
qed


lemma onConnect_cancelled_no_match:
  "onConnect ''https://p.example'' heapConnect (VRef 2) [10, 11] (cancelledOpenSession [catX])
     = Inl NoMatchingConnector"
proof -
  have sel: "connectSelection heapConnect (VRef 2)"
    by (simp add: connectSelection_def heapConnect_def lookup_def index_def)
  have ne: "\<forall>c \<in> set [catX]. \<not> eligible c (selectionPeer ''https://p.example'' heapConnect (VRef 2))"
    by (simp add: eligible_def selectionPeer_def catX_def heapConnect_def lookup_def index_def
        stringOf_def)
  have st: "exchangePort (cancelledOpenSession [catX]) = None"
    "cats (cancelledOpenSession [catX]) = Some [catX]"
    by (simp_all add: cancelledOpenSession_def)
  have len: "length [10, 11 :: nat] = 2"
    by simp
  show ?thesis
    using st sel len ne by (rule onConnect_no_match)
qed

text \<open>
  C8: on the service, a first \<open>open\<close> with no eligible pairing resolves with
  \<open>NotMatched\<close>, and on a requester session with \<open>pioc\<close> installed a connect
  selection for which no own Cat is eligible rejects \<open>open\<close> with
  \<open>NoMatchingConnector\<close>. On a requester session whose \<open>Open\<close> event was cancelled,
  the same selection makes \<open>onConnect\<close> throw \<open>NoMatchingConnector\<close>, which the
  listener passes to \<open>x\<close>; \<open>x\<close> sets the state to \<open>Complete\<close> and then throws a
  \<open>TypeError\<close> at the call of \<open>pioc\<close>, before it reaches \<open>rejectOpen\<close>: the session
  is \<open>Complete\<close> and \<open>open\<close> stays pending instead of failing with
  \<open>NoMatchingConnector\<close>.
\<close>

theorem C8_no_match_without_pioc:
  "snd (connectEvent ''https://p.example'' heapConnect (VRef 2) [10, 11]
         (cancelledOpenSession [catX])) = Some TypeError
   \<and> state (fst (connectEvent ''https://p.example'' heapConnect (VRef 2) [10, 11]
         (cancelledOpenSession [catX]))) = Complete
   \<and> openPromise (fst (connectEvent ''https://p.example'' heapConnect (VRef 2) [10, 11]
         (cancelledOpenSession [catX]))) = Pending
   \<and> openPromise (fst (connectEvent ''https://p.example'' heapConnect (VRef 2) [10, 11]
         (openSession [catX]))) = Rejected (Err NoMatchingConnector)
   \<and> snd (openRequest serviceP heapOffer (VRef 0)) = Resolved NotMatched"
proof -
  let ?s = "cancelledOpenSession [catX]"
  have ev: "connectEvent ''https://p.example'' heapConnect (VRef 2) [10, 11] ?s
      = x (Err NoMatchingConnector) ?s"
    by (simp add: connectEvent_def onConnect_cancelled_no_match)
  have xs: "x (Err NoMatchingConnector) ?s = (?s\<lparr>state := Complete, current := False\<rparr>, Some TypeError)"
    by (simp add: x_def closeProxy_def cancelledOpenSession_def)
  have p: "openPromise (?s\<lparr>state := Complete, current := False\<rparr>) = Pending"
    by (simp add: cancelledOpenSession_def)
  show ?thesis
    using no_match_outcomes_example by (simp add: ev xs p)
qed


section \<open>Claims about the offering role\<close>

lemma prefix_arrayify: "prefix h (fst (arrayify h v))"
  by (simp add: arrayify_def alloc_def)

lemma prefix_lookup:
  "prefix h h' \<Longrightarrow> lookup h a = Some ob \<Longrightarrow> lookup h' a = Some ob"
  by (auto simp: prefix_def lookup_def nth_append split: if_splits)

lemma arrayify_undefined:
  "lookup (fst (arrayify h VUndefined)) (length h) = Some emptyDataArray"
  by (simp add: arrayify_object emptyDataArray_def)

lemma closeCalls_prefix: "prefix h (fst (closeCalls h cs))"
proof (induction cs arbitrary: h)
  case Nil
  show ?case by simp
next
  case (Cons c cs)
  have "prefix h (fst (closeCalls (fst (arrayify h VUndefined)) cs))"
    using prefix_arrayify [of h VUndefined] Cons.IH [of "fst (arrayify h VUndefined)"]
    by (rule prefix_order.trans)
  then show ?case
    using Cons.IH [of h] by simp
qed

lemma closeCalls_length: "length (snd (closeCalls h cs)) = length cs"
  by (induction cs arbitrary: h) simp_all

lemma closeCalls_first:
  assumes "closingHooked c"
  shows "snd (closeCalls h (c # cs)) ! 0 =
       c\<lparr>offerResult := settle (offerResult c) (Resolved (VRef (length h)))\<rparr>"
    and "lookup (fst (closeCalls h (c # cs))) (length h) = Some emptyDataArray"
proof -
  show "snd (closeCalls h (c # cs)) ! 0 =
       c\<lparr>offerResult := settle (offerResult c) (Resolved (VRef (length h)))\<rparr>"
    using assms by (simp add: arrayify_result)
  have "lookup (fst (closeCalls (fst (arrayify h VUndefined)) cs)) (length h) = Some emptyDataArray"
    using closeCalls_prefix arrayify_undefined by (rule prefix_lookup)
  then show "lookup (fst (closeCalls h (c # cs))) (length h) = Some emptyDataArray"
    using assms by simp
qed

lemma postOffer_prefix: "prefix (sendHeap s) (sendHeap (postOffer d s))"
  by (simp add: postOffer_def Let_def prefix_arrayify)

lemma sendMessage_prefix: "prefix (sendHeap s) (sendHeap (sendMessage d s))"
  by (simp add: sendMessage_def prefix_arrayify split: option.splits)

lemma sendClosing_prefix: "prefix (sendHeap s) (sendHeap (sendClosing s))"
  by (simp add: sendClosing_def closeCalls_prefix)

lemma sendStep_prefix: "prefix (sendHeap s) (sendHeap (sendStep e s))"
  by (cases e) (simp_all add: postOffer_prefix sendMessage_prefix sendClosing_prefix)

lemma closeCalls_first_result:
  "cs \<noteq> [] \<Longrightarrow>
     offerResult (snd (closeCalls h cs) ! 0) =
       (if closingHooked (cs ! 0)
        then settle (offerResult (cs ! 0)) (Resolved (VRef (length h)))
        else offerResult (cs ! 0))
     \<and> closingHooked (snd (closeCalls h cs) ! 0) = closingHooked (cs ! 0)"
  by (cases cs) (simp_all add: arrayify_result)

lemma sendRun_Cons: "sendRun s (e # evs) = sendRun (sendStep e s) evs"
  by (simp add: sendRun_def)

lemma sendRun_append: "sendRun s (evs @ evs') = sendRun (sendRun s evs) evs'"
  by (simp add: sendRun_def)

lemma settled_step:
  assumes "offerCalls s \<noteq> []" "offerResult (offerCalls s ! 0) \<noteq> Pending"
  shows "offerCalls (sendStep e s) \<noteq> []
    \<and> offerResult (offerCalls (sendStep e s) ! 0) = offerResult (offerCalls s ! 0)"
proof (cases e)
  case (PostOffer d)
  then show ?thesis
    using assms by (simp add: postOffer_def Let_def nth_append)
next
  case (Message d ps)
  then show ?thesis
    using assms
    by (auto simp: sendMessage_def settle_def nth_list_update split: option.splits)
next
  case Closing
  then show ?thesis
    using assms closeCalls_first_result [OF assms(1), of "sendHeap s"]
      closeCalls_length [of "sendHeap s" "offerCalls s"]
    by (auto simp: sendClosing_def settle_def)
qed (use assms in simp_all)

lemma resolvedEmpty_step:
  assumes "resolvedEmpty s"
  shows "resolvedEmpty (sendStep e s)"
proof -
  from assms obtain a where a: "offerCalls s \<noteq> []"
    "offerResult (offerCalls s ! 0) = Resolved (VRef a)"
    "lookup (sendHeap s) a = Some emptyDataArray"
    by (auto simp: resolvedEmpty_def split: promise.splits jsval.splits)
  have np: "offerResult (offerCalls s ! 0) \<noteq> Pending"
    using a(2) by simp
  have l: "lookup (sendHeap (sendStep e s)) a = Some emptyDataArray"
    using sendStep_prefix a(3) by (rule prefix_lookup)
  show ?thesis
    using settled_step [OF a(1) np, of e] a(2) l by (simp add: resolvedEmpty_def)
qed

lemma resolvedEmpty_run: "resolvedEmpty s \<Longrightarrow> resolvedEmpty (sendRun s evs)"
  by (induction evs arbitrary: s) (simp_all add: sendRun_def resolvedEmpty_step)

lemma offerPending_first: "offerPending (postOffer d (sendInit h))"
  by (simp add: offerPending_def postOffer_def sendInit_def Let_def)

lemma offerPending_closing:
  assumes "offerPending s"
  shows "resolvedEmpty (sendClosing s)"
proof (cases "resolvedEmpty s")
  case True
  then show ?thesis
    using resolvedEmpty_step [of s Closing] by simp
next
  case False
  with assms have p: "offerCalls s \<noteq> []" "closingHooked (offerCalls s ! 0)"
    "offerResult (offerCalls s ! 0) = Pending" "\<not> closingFired s"
    by (auto simp: offerPending_def)
  obtain c cs where cs: "offerCalls s = c # cs"
    using p(1) by (cases "offerCalls s") auto
  have c: "closingHooked c" "offerResult c = Pending"
    using p(2,3) by (simp_all add: cs)
  show ?thesis
    using p(4) closeCalls_first [OF c(1), of "sendHeap s" cs] c(2)
      closeCalls_length [of "sendHeap s" "c # cs"]
    by (auto simp: sendClosing_def resolvedEmpty_def cs settle_def)
qed

lemma offerPending_step:
  assumes "offerPending s" "\<not> isMessage e"
  shows "offerPending (sendStep e s)"
proof (cases e)
  case (PostOffer d)
  have "offerPending (postOffer d s)"
    using assms(1) resolvedEmpty_step [of s "PostOffer d"]
    by (auto simp: offerPending_def postOffer_def Let_def nth_append)
  then show ?thesis
    by (simp add: PostOffer)
next
  case (Message d ps)
  then show ?thesis
    using assms(2) by simp
next
  case Closing
  have r: "resolvedEmpty (sendClosing s)"
    using assms(1) by (rule offerPending_closing)
  have "offerPosted (sendClosing s)" "closingHooked (offerCalls (sendClosing s) ! 0)"
    using assms(1) closeCalls_first_result [of "offerCalls s" "sendHeap s"]
    by (auto simp: offerPending_def sendClosing_def)
  then show ?thesis
    using r by (simp add: offerPending_def Closing resolvedEmpty_def)
qed (use assms(1) in simp_all)

lemma offerPending_run:
  "offerPending s \<Longrightarrow> \<forall>e \<in> set evs. \<not> isMessage e \<Longrightarrow> offerPending (sendRun s evs)"
  by (induction evs arbitrary: s) (simp_all add: sendRun_def offerPending_step)

lemma notRejected_step:
  assumes "offerCalls s \<noteq> []" "\<not> isRejected (offerResult (offerCalls s ! 0))"
  shows "offerCalls (sendStep e s) \<noteq> [] \<and> \<not> isRejected (offerResult (offerCalls (sendStep e s) ! 0))"
proof (cases "offerResult (offerCalls s ! 0) = Pending")
  case False
  then show ?thesis
    using settled_step [OF assms(1) False, of e] assms(2) by simp
next
  case True
  show ?thesis
  proof (cases e)
    case (PostOffer d)
    then show ?thesis
      using assms by (simp add: postOffer_def Let_def nth_append)
  next
    case (Message d ps)
    then show ?thesis
      using assms
      by (auto simp: sendMessage_def settle_def nth_list_update isRejected_def
          split: option.splits)
  next
    case Closing
    then show ?thesis
      using assms closeCalls_first_result [OF assms(1), of "sendHeap s"]
        closeCalls_length [of "sendHeap s" "offerCalls s"]
      by (auto simp: sendClosing_def settle_def isRejected_def)
  qed (use assms in simp_all)
qed

lemma notRejected_run:
  "offerCalls s \<noteq> [] \<Longrightarrow> \<not> isRejected (offerResult (offerCalls s ! 0)) \<Longrightarrow>
     offerCalls (sendRun s evs) \<noteq> []
     \<and> \<not> isRejected (offerResult (offerCalls (sendRun s evs) ! 0))"
proof (induction evs arbitrary: s)
  case Nil
  then show ?case by (simp add: sendRun_def)
next
  case (Cons e evs)
  show ?case
    using Cons.IH [of "sendStep e s"] notRejected_step [OF Cons.prems, of e]
    by (simp add: sendRun_Cons)
qed

lemma settled_run:
  "offerCalls s \<noteq> [] \<Longrightarrow> offerResult (offerCalls s ! 0) \<noteq> Pending \<Longrightarrow>
     offerCalls (sendRun s evs) \<noteq> []
     \<and> offerResult (offerCalls (sendRun s evs) ! 0) = offerResult (offerCalls s ! 0)"
proof (induction evs arbitrary: s)
  case Nil
  then show ?case by (simp add: sendRun_def)
next
  case (Cons e evs)
  have st: "offerCalls (sendStep e s) \<noteq> []"
    "offerResult (offerCalls (sendStep e s) ! 0) = offerResult (offerCalls s ! 0)"
    using settled_step [OF Cons.prems, of e] by simp_all
  show ?case
    using Cons.IH [of "sendStep e s"] st Cons.prems(2) by (simp add: sendRun_Cons)
qed

lemma resolvedEmpty_settled:
  "resolvedEmpty s \<Longrightarrow> offerCalls s \<noteq> [] \<and> offerResult (offerCalls s ! 0) \<noteq> Pending"
  by (auto simp: resolvedEmpty_def)

text \<open>
  C6: after the offer has been posted by the first call of \<open>postOffer\<close>, if the closing
  signal fires before any message is delivered on the port, the promise of that call is
  resolved with an empty DataArray (an array without elements whose \<open>raw\<close> is
  \<open>undefined\<close>), and whatever happens later, a reply included, it stays resolved with
  that same DataArray; and the promise of the first call is never rejected, whatever
  happens after the call.
\<close>

theorem C6_closing_race:
  "((\<forall>e \<in> set before. \<not> isMessage e) \<longrightarrow>
      resolvedEmpty (sendRun (sendInit h) (PostOffer d # before @ [Closing]))
      \<and> resolvedEmpty (sendRun (sendInit h) (PostOffer d # before @ Closing # later))
      \<and> offerResult (offerCalls (sendRun (sendInit h) (PostOffer d # before @ Closing # later)) ! 0)
          = offerResult (offerCalls (sendRun (sendInit h) (PostOffer d # before @ [Closing])) ! 0))
   \<and> \<not> isRejected (offerResult (offerCalls (sendRun (sendInit h) (PostOffer d # evs)) ! 0))"
proof -
  let ?c = "sendRun (sendInit h) (PostOffer d # before @ [Closing])"
  have split: "sendRun (sendInit h) (PostOffer d # before @ Closing # later) = sendRun ?c later"
    by (simp add: sendRun_def)
  have a: "resolvedEmpty ?c \<and> resolvedEmpty (sendRun ?c later)
      \<and> offerResult (offerCalls (sendRun ?c later) ! 0) = offerResult (offerCalls ?c ! 0)"
    if nm: "\<forall>e \<in> set before. \<not> isMessage e"
  proof -
    have p: "offerPending (sendRun (postOffer d (sendInit h)) before)"
      using offerPending_first nm by (rule offerPending_run)
    have "resolvedEmpty (sendClosing (sendRun (postOffer d (sendInit h)) before))"
      using p by (rule offerPending_closing)
    then have c: "resolvedEmpty ?c"
      by (simp add: sendRun_def)
    have l: "resolvedEmpty (sendRun ?c later)"
      using c by (rule resolvedEmpty_run)
    show ?thesis
      using c l settled_run [of ?c later] resolvedEmpty_settled [OF c] by simp
  qed
  have "offerCalls (postOffer d (sendInit h)) \<noteq> []"
    "\<not> isRejected (offerResult (offerCalls (postOffer d (sendInit h)) ! 0))"
    by (simp_all add: postOffer_def sendInit_def Let_def isRejected_def)
  then have b: "\<not> isRejected (offerResult (offerCalls (sendRun (sendInit h) (PostOffer d # evs)) ! 0))"
    using notRejected_run [of "postOffer d (sendInit h)" evs] by (simp add: sendRun_Cons)
  show ?thesis
    unfolding split using a b by blast
qed

theorem C6_closing_race_witness:
  "\<not> isMessage (PostOffer (VNum 2))
   \<and> resolvedEmpty (sendRun (sendInit [])
        (PostOffer (VNum 1) # [PostOffer (VNum 2)] @ Closing # [Message (VStr ''r'') []]))
   \<and> offerResult (offerCalls (sendRun (sendInit [])
        (PostOffer (VNum 1) # [PostOffer (VNum 2)] @ Closing # [Message (VStr ''r'') []])) ! 0)
       = Resolved (VRef 0)"
proof -
  have nm: "\<forall>e \<in> set [PostOffer (VNum 2)]. \<not> isMessage e"
    by simp
  have c: "offerResult (offerCalls (sendRun (sendInit [])
        (PostOffer (VNum 1) # [PostOffer (VNum 2)] @ [Closing])) ! 0) = Resolved (VRef 0)"
    by (simp add: sendRun_def sendInit_def postOffer_def sendClosing_def Let_def settle_def
        arrayify_result)
  from C6_closing_race [of "[PostOffer (VNum 2)]" "[]" "VNum 1" "[Message (VStr ''r'') []]"] nm c
  show ?thesis
    by simp
qed

text \<open>
  C2: a second call of \<open>postOffer\<close> on the channel returns a promise rejected with
  \<open>OfferAlreadyPosted\<close> and posts no second message. But it has installed its own
  handler on the port before it checks \<open>offerPosted\<close>, and the variable that handler
  reads is never initialised: without the second call the reply resolves the promise of
  the first call and is acknowledged; after the second call the same reply leaves the
  promise of the first call pending, and nothing is acknowledged.
\<close>

theorem C2_second_post_replaces_handler:
  "offerResult (offerCalls (sendRun (sendInit h) [PostOffer d1, PostOffer d2]) ! 1)
       = Rejected (Err OfferAlreadyPosted)
   \<and> posted (sendRun (sendInit h) [PostOffer d1, PostOffer d2]) = [d1]
   \<and> offerResult (offerCalls (sendRun (sendInit h) [PostOffer d1, Message r ps]) ! 0)
       = Resolved (VRef (length h))
   \<and> posted (sendRun (sendInit h) [PostOffer d1, Message r ps]) = [d1, VNull]
   \<and> offerResult (offerCalls (sendRun (sendInit h) [PostOffer d1, PostOffer d2, Message r ps]) ! 0)
       = Pending
   \<and> posted (sendRun (sendInit h) [PostOffer d1, PostOffer d2, Message r ps]) = [d1]"
  by (simp add: sendRun_def sendInit_def postOffer_def sendMessage_def Let_def settle_def
      arrayify_result)

section \<open>Claims about the accepting role\<close>

lemma recvRun_snoc: "recvRun s (evs @ [e]) = recvStep e (recvRun s evs)"
  by (simp add: recvRun_def)

lemma recvRun_append: "recvRun s (evs @ evs') = recvRun (recvRun s evs) evs'"
  by (simp add: recvRun_def)

lemma recvRun_Cons: "recvRun s (e # evs) = recvRun (recvStep e s) evs"
  by (simp add: recvRun_def)

lemma recvStep_closingFired:
  "Closing \<noteq> e \<Longrightarrow> recvClosingFired (recvStep e s) = recvClosingFired s"
  by (cases e)
     (simp_all add: recvMessage_def postResult_def callbackFulfilled_def callbackRejected_def
        consumerThrows_def resolveRecv_def Let_def)

lemma recvRun_closingFired:
  "Closing \<notin> set evs \<Longrightarrow> recvClosingFired (recvRun s evs) = recvClosingFired s"
  by (induction evs arbitrary: s) (simp_all add: recvRun_def recvStep_closingFired)

lemma recvStep_idle:
  "waitingForOffer s \<Longrightarrow> \<not> waitingForCallback s \<Longrightarrow> \<not> isMessage e \<Longrightarrow> Closing \<noteq> e \<Longrightarrow>
     recvStep e s = s"
  by (cases e)
     (simp_all add: postResult_def callbackFulfilled_def callbackRejected_def consumerThrows_def)

lemma recvRun_idle:
  "waitingForOffer s \<Longrightarrow> \<not> waitingForCallback s \<Longrightarrow> \<forall>e \<in> set evs. \<not> isMessage e \<Longrightarrow>
     Closing \<notin> set evs \<Longrightarrow> recvRun s evs = s"
  by (induction evs arbitrary: s) (simp_all add: recvRun_def recvStep_idle)

lemma recvStep_fulfilled:
  "\<not> waitingForCallback s \<and> \<not> waitingForOffer s \<and> resolveValue s = v \<Longrightarrow>
     \<not> waitingForCallback (recvStep e s) \<and> \<not> waitingForOffer (recvStep e s)
     \<and> resolveValue (recvStep e s) = v"
  by (cases e)
     (simp_all add: recvMessage_def postResult_def callbackFulfilled_def callbackRejected_def
        consumerThrows_def recvClosing_def resolveRecv_def Let_def)

lemma recvRun_fulfilled:
  "\<not> waitingForCallback s \<and> \<not> waitingForOffer s \<and> resolveValue s = v \<Longrightarrow>
     \<not> waitingForCallback (recvRun s evs) \<and> \<not> waitingForOffer (recvRun s evs)
     \<and> resolveValue (recvRun s evs) = v"
proof (induction evs arbitrary: s)
  case Nil
  then show ?case by (simp add: recvRun_def)
next
  case (Cons e evs)
  show ?case
    using Cons.IH [OF recvStep_fulfilled [OF Cons.prems, of e]] by (simp add: recvRun_Cons)
qed

lemma recvStep_callback_offer:
  "waitingForCallback s \<longrightarrow> \<not> waitingForOffer s \<Longrightarrow>
     waitingForCallback (recvStep e s) \<longrightarrow> \<not> waitingForOffer (recvStep e s)"
  by (cases e)
     (auto simp: recvMessage_def postResult_def callbackFulfilled_def callbackRejected_def
        consumerThrows_def recvClosing_def resolveRecv_def Let_def)

lemma recvRun_callback_offer:
  "waitingForCallback s \<longrightarrow> \<not> waitingForOffer s \<Longrightarrow>
     waitingForCallback (recvRun s evs) \<longrightarrow> \<not> waitingForOffer (recvRun s evs)"
proof (induction evs arbitrary: s)
  case Nil
  then show ?case by (simp add: recvRun_def)
next
  case (Cons e evs)
  show ?case
    using Cons.IH [OF recvStep_callback_offer [OF Cons.prems, of e]] by (simp add: recvRun_Cons)
qed

lemma callbackFulfilled_value:
  "waitingForCallback s \<Longrightarrow> \<not> thrown s \<Longrightarrow> \<not> waitingForOffer s \<Longrightarrow>
     \<not> waitingForCallback (callbackFulfilled v s) \<and> \<not> waitingForOffer (callbackFulfilled v s)
     \<and> resolveValue (callbackFulfilled v s) = v"
  by (simp add: callbackFulfilled_def postResult_def resolveRecv_def Let_def)

lemma recvStep_ports:
  "\<not> waitingForOffer s \<and> ports s = Some ps \<Longrightarrow>
     \<not> waitingForOffer (recvStep e s) \<and> ports (recvStep e s) = Some ps"
  by (cases e)
     (simp_all add: recvMessage_def postResult_def callbackFulfilled_def callbackRejected_def
        consumerThrows_def recvClosing_def resolveRecv_def Let_def)

lemma recvRun_ports:
  "\<not> waitingForOffer s \<and> ports s = Some ps \<Longrightarrow>
     \<not> waitingForOffer (recvRun s evs) \<and> ports (recvRun s evs) = Some ps"
proof (induction evs arbitrary: s)
  case Nil
  then show ?case by (simp add: recvRun_def)
next
  case (Cons e evs)
  show ?case
    using Cons.IH [OF recvStep_ports [OF Cons.prems, of e]] by (simp add: recvRun_Cons)
qed

lemma recvStep_waitingForOffer:
  "\<not> isMessage e \<Longrightarrow> waitingForOffer (recvStep e s) = waitingForOffer s"
  by (cases e)
     (simp_all add: postResult_def callbackFulfilled_def callbackRejected_def
        consumerThrows_def recvClosing_def resolveRecv_def Let_def)

lemma recvRun_waitingForOffer:
  "\<forall>e \<in> set evs. \<not> isMessage e \<Longrightarrow> waitingForOffer (recvRun s evs) = waitingForOffer s"
  by (induction evs arbitrary: s) (simp_all add: recvRun_def recvStep_waitingForOffer)

lemma recvClosing_effect:
  assumes "\<not> recvClosingFired s"
  shows "(\<not> waitingForCallback s \<and> recvPromise s = Pending \<longrightarrow>
            recvPromise (recvClosing s) = Resolved (resolveValue s))
       \<and> (waitingForCallback s \<longrightarrow> recvPromise (recvClosing s) = recvPromise s)
       \<and> (\<forall>ps. ports s = Some ps \<longrightarrow> set ps \<subseteq> set (recvClosedPorts (recvClosing s)))"
  using assms by (simp add: recvClosing_def resolveRecv_def settle_def Let_def)

lemma recvClosing_init:
  "recvPromise (recvClosing (recvInit h)) = Resolved (VRef (length h))
   \<and> lookup (recvHeap (recvClosing (recvInit h))) (length h) = Some emptyDataArray"
  by (simp add: recvClosing_def recvInit_def resolveRecv_def settle_def Let_def
      arrayify_result arrayify_undefined)

text \<open>
  C3, amended: when the closing signal fires (for the first time) in the accepting role,
  the receive operation, if it is pending and the consumer's promise is not pending (no
  offer has arrived, or the consumer has settled), resolves at once with \<open>resolveValue\<close>:
  the empty DataArray made at the start if no message has arrived, the value the
  consumer's promise fulfilled with if it has fulfilled. While the consumer's promise is
  pending, the closing signal does not settle the operation. In every case the ports that
  arrived with the offer are closed.
\<close>

theorem C3_closing_accepting:
  assumes "Closing \<notin> set evs"
  shows "(\<not> waitingForCallback (recvRun (recvInit h) evs)
            \<and> recvPromise (recvRun (recvInit h) evs) = Pending \<longrightarrow>
          recvPromise (recvRun (recvInit h) (evs @ [Closing])) =
            Resolved (resolveValue (recvRun (recvInit h) evs)))
       \<and> (waitingForCallback (recvRun (recvInit h) evs) \<longrightarrow>
          recvPromise (recvRun (recvInit h) (evs @ [Closing])) =
            recvPromise (recvRun (recvInit h) evs))
       \<and> (\<forall>ps. ports (recvRun (recvInit h) evs) = Some ps \<longrightarrow>
            set ps \<subseteq> set (recvClosedPorts (recvRun (recvInit h) (evs @ [Closing]))))
       \<and> ((\<forall>e \<in> set evs. \<not> isMessage e) \<longrightarrow>
            recvPromise (recvRun (recvInit h) (evs @ [Closing])) = Resolved (VRef (length h))
            \<and> lookup (recvHeap (recvRun (recvInit h) (evs @ [Closing]))) (length h)
                = Some emptyDataArray)
       \<and> (\<forall>evs1 v evs2. evs = evs1 @ CallbackFulfilled v # evs2
              \<and> waitingForCallback (recvRun (recvInit h) evs1)
              \<and> \<not> thrown (recvRun (recvInit h) evs1) \<longrightarrow>
            \<not> waitingForCallback (recvRun (recvInit h) evs)
            \<and> resolveValue (recvRun (recvInit h) evs) = v)
       \<and> (\<forall>evs1 d ps evs2. evs = evs1 @ Message d ps # evs2
              \<and> (\<forall>e \<in> set evs1. \<not> isMessage e) \<longrightarrow>
            ports (recvRun (recvInit h) evs) = Some ps)"
proof -
  let ?s = "recvRun (recvInit h) evs"
  have nf: "\<not> recvClosingFired ?s"
    using assms by (simp add: recvRun_closingFired recvInit_def)
  have cl: "recvRun (recvInit h) (evs @ [Closing]) = recvClosing ?s"
    by (simp add: recvRun_snoc)
  note eff = recvClosing_effect [OF nf]
  have idle: "recvPromise (recvClosing ?s) = Resolved (VRef (length h))
      \<and> lookup (recvHeap (recvClosing ?s)) (length h) = Some emptyDataArray"
    if "\<forall>e \<in> set evs. \<not> isMessage e"
  proof -
    have "?s = recvInit h"
      using that assms by (intro recvRun_idle) (simp_all add: recvInit_def)
    then show ?thesis
      using recvClosing_init [of h] by simp
  qed
  have ful: "\<not> waitingForCallback ?s \<and> resolveValue ?s = v"
    if e: "evs = evs1 @ CallbackFulfilled v # evs2"
      and w: "waitingForCallback (recvRun (recvInit h) evs1)"
      and t: "\<not> thrown (recvRun (recvInit h) evs1)"
    for evs1 v evs2
  proof -
    have "waitingForCallback (recvInit h) \<longrightarrow> \<not> waitingForOffer (recvInit h)"
      by (simp add: recvInit_def)
    then have "waitingForCallback (recvRun (recvInit h) evs1)
        \<longrightarrow> \<not> waitingForOffer (recvRun (recvInit h) evs1)"
      by (rule recvRun_callback_offer)
    with w have o: "\<not> waitingForOffer (recvRun (recvInit h) evs1)"
      by simp
    have "?s = recvRun (callbackFulfilled v (recvRun (recvInit h) evs1)) evs2"
      by (simp add: e recvRun_append recvRun_Cons)
    then show ?thesis
      using recvRun_fulfilled [OF callbackFulfilled_value [OF w t o, of v], of evs2] by simp
  qed
  have prt: "ports ?s = Some ps"
    if e: "evs = evs1 @ Message d ps # evs2" and n: "\<forall>e \<in> set evs1. \<not> isMessage e"
    for evs1 d ps evs2
  proof -
    have w: "waitingForOffer (recvRun (recvInit h) evs1)"
      using recvRun_waitingForOffer [OF n, of "recvInit h"] by (simp add: recvInit_def)
    have m: "\<not> waitingForOffer (recvMessage d ps (recvRun (recvInit h) evs1))
        \<and> ports (recvMessage d ps (recvRun (recvInit h) evs1)) = Some ps"
      using w by (simp add: recvMessage_def)
    have "?s = recvRun (recvMessage d ps (recvRun (recvInit h) evs1)) evs2"
      by (simp add: e recvRun_append recvRun_Cons)
    then show ?thesis
      using recvRun_ports [OF m, of evs2] by simp
  qed
  show ?thesis
    unfolding cl using eff idle ful prt by blast
qed

text \<open>
  C3, as the spec states it, says that the receive operation resolves at once when the
  closing signal fires before the acknowledgment, also while the promise of the consumer
  is pending. After an offer has arrived and while the consumer has not settled, the
  closing signal leaves the promise of \<open>performRecv\<close> pending.
\<close>

theorem C3_pending_callback_counterexample:
  "waitingForAck (recvRun (recvInit []) [Message (VStr ''o'') [7]])
   \<and> waitingForCallback (recvRun (recvInit []) [Message (VStr ''o'') [7]])
   \<and> recvPromise (recvRun (recvInit []) [Message (VStr ''o'') [7], Closing]) = Pending"
  by (simp add: recvRun_def recvInit_def recvMessage_def recvClosing_def Let_def)

theorem C3_closing_accepting_witness:
  "Closing \<notin> set [Message (VStr ''o'') [7], PostResult (VNum 1), CallbackFulfilled (VNum 3)]
   \<and> recvPromise (recvRun (recvInit [])
        ([Message (VStr ''o'') [7], PostResult (VNum 1), CallbackFulfilled (VNum 3)] @ [Closing]))
       = Resolved (VNum 3)
   \<and> set [7] \<subseteq> set (recvClosedPorts (recvRun (recvInit [])
        ([Message (VStr ''o'') [7], PostResult (VNum 1), CallbackFulfilled (VNum 3)] @ [Closing])))
   \<and> recvPromise (recvRun (recvInit []) ([] @ [Closing])) = Resolved (VRef 0)
   \<and> lookup (recvHeap (recvRun (recvInit []) ([] @ [Closing]))) 0 = Some emptyDataArray"
proof -
  let ?evs = "[Message (VStr ''o'') [7], PostResult (VNum 1), CallbackFulfilled (VNum 3)]"
  have nc: "Closing \<notin> set ?evs" "Closing \<notin> set ([] :: event list)"
    by simp_all
  have st: "\<not> waitingForCallback (recvRun (recvInit []) ?evs)"
    "recvPromise (recvRun (recvInit []) ?evs) = Pending"
    "resolveValue (recvRun (recvInit []) ?evs) = VNum 3"
    "ports (recvRun (recvInit []) ?evs) = Some [7]"
    by (simp_all add: recvRun_def recvInit_def recvMessage_def postResult_def
        callbackFulfilled_def Let_def)
  have nm: "\<forall>e \<in> set ([] :: event list). \<not> isMessage e"
    by simp
  from C3_closing_accepting [OF nc(1), of "[]"] C3_closing_accepting [OF nc(2), of "[]"] st nm nc
  show ?thesis
    by (simp del: append.simps set_simps)
qed


end
